theory Spec2Isabelle
  imports Main "HOL-Library.AList"
begin

section \<open>JSON values and validation results\<close>

text \<open>
  The TypeScript sources pass parsed JSON around as \<open>any\<close>.  The model uses a
  datatype of JSON values; numbers are kept as integers, since no function
  modelled here computes with them.
\<close>

datatype json =
    JNull
  | JBool bool
  | JNum int
  | JStr string
  | JArr "json list"
  | JObj "(string \<times> json) list"

text \<open>\<open>ValidationError\<close> and \<open>ValidationResult\<close> of \<open>entities.ts\<close>.\<close>

record validation_error =
  instancePath :: string
  schemaPath :: string
  keyword :: string
  message :: string
  params :: "(string \<times> json) list"
  data :: "json option"

record validation_result =
  valid :: bool
  errors :: "validation_error list"

section \<open>Characters, strings and the regular expressions of the sources\<close>

definition dq :: char where
  "dq = CHR 0x22"

definition sq :: char where
  "sq = CHR 0x27"

definition backslash :: char where
  "backslash = CHR 0x5C"

text \<open>A string between double quotes, for writing documents down.\<close>

definition quoted :: "string \<Rightarrow> string" where
  "quoted s = dq # s @ [dq]"

text \<open>The class \<open>\s\<close> of JavaScript, on the 8-bit characters of \<open>string\<close>.\<close>

definition is_space :: "char \<Rightarrow> bool" where
  "is_space c = (c = CHR 0x09 \<or> c = CHR 0x0A \<or> c = CHR 0x0B \<or> c = CHR 0x0C
     \<or> c = CHR 0x0D \<or> c = CHR 0x20 \<or> c = CHR 0xA0)"

text \<open>The class \<open>\d\<close>.\<close>

definition is_digit :: "char \<Rightarrow> bool" where
  "is_digit c = (c = CHR ''0'' \<or> c = CHR ''1'' \<or> c = CHR ''2'' \<or> c = CHR ''3''
     \<or> c = CHR ''4'' \<or> c = CHR ''5'' \<or> c = CHR ''6'' \<or> c = CHR ''7''
     \<or> c = CHR ''8'' \<or> c = CHR ''9'')"

text \<open>The class \<open>["']\<close>.\<close>

definition is_quote :: "char \<Rightarrow> bool" where
  "is_quote c = (c = dq \<or> c = sq)"

text \<open>\<open>/^\d+$/.test(s)\<close>\<close>

definition all_digits :: "string \<Rightarrow> bool" where
  "all_digits s = (s \<noteq> [] \<and> list_all is_digit s)"

text \<open>\<open>parseInt(s, 10)\<close> on a string of decimal digits.\<close>

definition digit_value :: "char \<Rightarrow> nat" where
  "digit_value c = of_char c - 48"

definition parseInt :: "string \<Rightarrow> nat" where
  "parseInt s = foldl (\<lambda>n c. 10 * n + digit_value c) 0 s"

text \<open>\<open>s.substring(a, b)\<close>: both indices are clamped to the length and swapped
  when out of order.\<close>

definition substring :: "string \<Rightarrow> nat \<Rightarrow> nat \<Rightarrow> string" where
  "substring s a b =
     (let a' = min a (length s); b' = min b (length s);
          lo = min a' b'; hi = max a' b'
      in take (hi - lo) (drop lo s))"

text \<open>\<open>s.split('/')\<close>: the empty string gives one empty segment.\<close>

fun split_on :: "char \<Rightarrow> string \<Rightarrow> string list" where
  "split_on d [] = [[]]"
| "split_on d (c # cs) =
     (if c = d then [] # split_on d cs
      else (case split_on d cs of
              [] \<Rightarrow> [[c]]
            | x # xs \<Rightarrow> (c # x) # xs))"

text \<open>\<open>segs.join('/')\<close>\<close>

fun join_with :: "char \<Rightarrow> string list \<Rightarrow> string" where
  "join_with d [] = []"
| "join_with d [s] = s"
| "join_with d (s # t # ss) = s @ d # join_with d (t # ss)"

text \<open>
  A pattern is modelled by the function that matches it at the start of a
  string and returns what is left after the match.  Every pattern of the
  sources is a sequence of literals, single-character classes and greedy
  \<open>\s*\<close> or \<open>[^"]+\<close> runs followed by a character outside the run's class, so
  matching never backtracks.
\<close>

type_synonym pattern = "string \<Rightarrow> string option"

text \<open>A literal.  \<open>escapeRegex\<close> puts a backslash before each of
  \<open>. * + ? ^ $ { } ( ) | [ ] \\<close>, so that the pattern built from the escaped
  string matches exactly the characters of the string.\<close>

fun literal :: "string \<Rightarrow> pattern" where
  "literal [] s = Some s"
| "literal (p # ps) [] = None"
| "literal (p # ps) (c # cs) = (if p = c then literal ps cs else None)"

text \<open>One character of a class.\<close>

fun one_of :: "(char \<Rightarrow> bool) \<Rightarrow> pattern" where
  "one_of P [] = None"
| "one_of P (c # cs) = (if P c then Some cs else None)"

text \<open>\<open>\s*\<close>\<close>

definition spaces :: "string \<Rightarrow> string" where
  "spaces s = dropWhile is_space s"

text \<open>\<open>["']NAME["']\s*:\<close>\<close>

definition key_colon :: "string \<Rightarrow> pattern" where
  "key_colon name s =
     Option.bind (one_of is_quote s) (\<lambda>s1.
     Option.bind (literal name s1) (\<lambda>s2.
     Option.bind (one_of is_quote s2) (\<lambda>s3.
     one_of (\<lambda>c. c = CHR '':'') (spaces s3))))"

text \<open>\<open>["']NAME["']\s*:\s*\{\<close>\<close>

definition key_colon_brace :: "string \<Rightarrow> pattern" where
  "key_colon_brace name s =
     Option.bind (key_colon name s) (\<lambda>s1.
     one_of (\<lambda>c. c = CHR ''{'') (spaces s1))"

text \<open>\<open>"FIELD"\s*:\s*"VALUE"\<close>\<close>

definition field_with_value :: "string \<Rightarrow> string \<Rightarrow> pattern" where
  "field_with_value field v s =
     Option.bind (literal (quoted field) s) (\<lambda>s1.
     Option.bind (one_of (\<lambda>c. c = CHR '':'') (spaces s1)) (\<lambda>s2.
     literal (quoted v) (spaces s2)))"

text \<open>\<open>"FIELD"\s*:\s*"([^"]+)"\<close>\<close>

definition field_with_string :: "string \<Rightarrow> pattern" where
  "field_with_string field s =
     Option.bind (literal (quoted field) s) (\<lambda>s1.
     Option.bind (one_of (\<lambda>c. c = CHR '':'') (spaces s1)) (\<lambda>s2.
     Option.bind (one_of (\<lambda>c. c = dq) (spaces s2)) (\<lambda>s3.
     Option.bind (one_of (\<lambda>c. c \<noteq> dq) s3) (\<lambda>s4.
     one_of (\<lambda>c. c = dq) (dropWhile (\<lambda>c. c \<noteq> dq) s4)))))"

text \<open>\<open>\{\<close>\<close>

definition open_brace :: pattern where
  "open_brace s = one_of (\<lambda>c. c = CHR ''{'') s"

text \<open>
  \<open>pattern.exec(text)\<close> and \<open>text.match(pattern)\<close>, from index \<open>i\<close> of the whole
  text on: the leftmost position where the pattern matches, as the pair of
  \<open>match.index\<close> and \<open>match[0].length\<close>.
\<close>

fun regex_exec :: "pattern \<Rightarrow> string \<Rightarrow> nat \<Rightarrow> (nat \<times> nat) option" where
  "regex_exec p [] i =
     (case p [] of None \<Rightarrow> None | Some r \<Rightarrow> Some (i, 0))"
| "regex_exec p (c # cs) i =
     (case p (c # cs) of
        Some r \<Rightarrow> Some (i, length (c # cs) - length r)
      | None \<Rightarrow> regex_exec p cs (Suc i))"

section \<open>The host editor's documents, positions and ranges\<close>

record position =
  line :: nat
  character :: nat

record range =
  range_start :: position
  range_end :: position

text \<open>
  A \<open>vscode.TextDocument\<close>: its text and the host's two conversions between
  offsets and positions, which the locator takes as given.
\<close>

record document =
  getText :: string
  positionAt :: "nat \<Rightarrow> position"
  offsetAt :: "position \<Rightarrow> nat"

text \<open>\<open>pos.translate(0, n)\<close>\<close>

definition translate_chars :: "position \<Rightarrow> nat \<Rightarrow> position" where
  "translate_chars p n = p\<lparr>character := character p + n\<rparr>"

definition is_before :: "position \<Rightarrow> position \<Rightarrow> bool" where
  "is_before a b = (line a < line b \<or> (line a = line b \<and> character a < character b))"

text \<open>\<open>new vscode.Range(a, b)\<close> orders its two ends.\<close>

definition new_Range :: "position \<Rightarrow> position \<Rightarrow> range" where
  "new_Range a b =
     (if is_before b a then \<lparr>range_start = b, range_end = a\<rparr>
      else \<lparr>range_start = a, range_end = b\<rparr>)"

text \<open>The one-character range at an offset:
  \<open>new vscode.Range(pos, pos.translate(0, 1))\<close> with \<open>pos = positionAt(offset)\<close>.\<close>

definition brace_range :: "document \<Rightarrow> nat \<Rightarrow> range" where
  "brace_range doc off =
     (let pos = positionAt doc off in new_Range pos (translate_chars pos 1))"

section \<open>The source position locator\<close>

text \<open>
  \<open>findTypeFieldByValue\<close>: the first \<open>"type": "VALUE"\<close> of the text; the range is
  that of the four characters of \<open>type\<close>.
\<close>

definition findTypeFieldByValue :: "string \<Rightarrow> document \<Rightarrow> string \<Rightarrow> range option" where
  "findTypeFieldByValue text document typeValue =
     (case regex_exec (field_with_value ''type'' typeValue) text 0 of
        Some (index, len) \<Rightarrow>
          Some (new_Range (positionAt document (index + 1)) (positionAt document (index + 5)))
      | None \<Rightarrow> None)"

text \<open>
  The \<open>for\<close> loop of \<open>findNthObjectInArray\<close>, from offset \<open>i\<close> on; \<open>rest\<close> is the text
  from \<open>i\<close>.  The counters are the loop's variables; \<open>braceCount\<close> is decremented
  without a guard and can become negative.  When the loop ends or breaks, the
  function returns \<open>null\<close>.
\<close>

fun nthObjectInArray_loop ::
  "string \<Rightarrow> document \<Rightarrow> nat \<Rightarrow> bool \<Rightarrow> string \<Rightarrow> nat \<Rightarrow> int \<Rightarrow> nat \<Rightarrow> nat \<Rightarrow> bool \<Rightarrow> bool
     \<Rightarrow> range option" where
  "nthObjectInArray_loop text document index highlightBrace [] i
       braceCount bracketCount objectCount inString escapeNext = None"
| "nthObjectInArray_loop text document index highlightBrace (char # rest) i
       braceCount bracketCount objectCount inString escapeNext =
     (if escapeNext then
        nthObjectInArray_loop text document index highlightBrace rest (Suc i)
          braceCount bracketCount objectCount inString False
      else if char = backslash \<and> inString then
        nthObjectInArray_loop text document index highlightBrace rest (Suc i)
          braceCount bracketCount objectCount inString True
      else if char = dq then
        nthObjectInArray_loop text document index highlightBrace rest (Suc i)
          braceCount bracketCount objectCount (\<not> inString) escapeNext
      else if inString then
        nthObjectInArray_loop text document index highlightBrace rest (Suc i)
          braceCount bracketCount objectCount inString escapeNext
      else if char = CHR ''['' then
        nthObjectInArray_loop text document index highlightBrace rest (Suc i)
          braceCount (Suc bracketCount) objectCount inString escapeNext
      else if char = CHR '']'' then
        (if bracketCount > 0 then
           nthObjectInArray_loop text document index highlightBrace rest (Suc i)
             braceCount (bracketCount - 1) objectCount inString escapeNext
         else None)
      else if char = CHR ''{'' then
        (if braceCount = 0 \<and> bracketCount = 0 \<and> objectCount = index then
           (let currentObjectStart = i;
                objectText = substring text currentObjectStart (i + 1)
            in if highlightBrace then Some (brace_range document currentObjectStart)
               else
                 (case regex_exec (field_with_string ''id'') objectText 0 of
                    Some (idIndex, idLen) \<Rightarrow>
                      Some (new_Range (positionAt document (currentObjectStart + idIndex + 1))
                                      (positionAt document (currentObjectStart + idIndex + 3)))
                  | None \<Rightarrow>
                      (case regex_exec (field_with_string ''type'') objectText 0 of
                         Some (typeIndex, typeLen) \<Rightarrow>
                           Some (new_Range
                                   (positionAt document (currentObjectStart + typeIndex + 1))
                                   (positionAt document (currentObjectStart + typeIndex + 5)))
                       | None \<Rightarrow> Some (brace_range document currentObjectStart))))
         else
           nthObjectInArray_loop text document index highlightBrace rest (Suc i)
             (braceCount + 1) bracketCount objectCount inString escapeNext)
      else if char = CHR ''}'' then
        (if braceCount - 1 = 0 \<and> bracketCount = 0 then
           nthObjectInArray_loop text document index highlightBrace rest (Suc i)
             (braceCount - 1) bracketCount (Suc objectCount) inString escapeNext
         else
           nthObjectInArray_loop text document index highlightBrace rest (Suc i)
             (braceCount - 1) bracketCount objectCount inString escapeNext)
      else
        nthObjectInArray_loop text document index highlightBrace rest (Suc i)
          braceCount bracketCount objectCount inString escapeNext)"

text \<open>
  \<open>findNthObjectInArray\<close>: skip the leading white space, require \<open>[\<close>, and scan
  from the character after it.
\<close>

definition findNthObjectInArray :: "string \<Rightarrow> document \<Rightarrow> nat \<Rightarrow> bool \<Rightarrow> range option" where
  "findNthObjectInArray text document index highlightBrace =
     (let pos = length (takeWhile is_space text)
      in if pos \<ge> length text \<or> text ! pos \<noteq> CHR ''['' then None
         else nthObjectInArray_loop text document index highlightBrace
                (drop (pos + 1) text) (pos + 1) 0 0 0 False False)"

text \<open>The loop of \<open>findNthObjectBracePosition\<close>: the same scan, returning the
  offset of the opening brace of the object with the given index.\<close>

fun nthObjectBrace_loop ::
  "nat \<Rightarrow> string \<Rightarrow> nat \<Rightarrow> int \<Rightarrow> nat \<Rightarrow> nat \<Rightarrow> bool \<Rightarrow> bool \<Rightarrow> nat option" where
  "nthObjectBrace_loop index [] i braceCount bracketCount objectCount inString escapeNext = None"
| "nthObjectBrace_loop index (char # rest) i braceCount bracketCount objectCount inString escapeNext =
     (if escapeNext then
        nthObjectBrace_loop index rest (Suc i) braceCount bracketCount objectCount inString False
      else if char = backslash \<and> inString then
        nthObjectBrace_loop index rest (Suc i) braceCount bracketCount objectCount inString True
      else if char = dq then
        nthObjectBrace_loop index rest (Suc i) braceCount bracketCount objectCount
          (\<not> inString) escapeNext
      else if inString then
        nthObjectBrace_loop index rest (Suc i) braceCount bracketCount objectCount
          inString escapeNext
      else if char = CHR ''['' then
        nthObjectBrace_loop index rest (Suc i) braceCount (Suc bracketCount) objectCount
          inString escapeNext
      else if char = CHR '']'' then
        (if bracketCount > 0 then
           nthObjectBrace_loop index rest (Suc i) braceCount (bracketCount - 1) objectCount
             inString escapeNext
         else None)
      else if char = CHR ''{'' then
        (if braceCount = 0 \<and> bracketCount = 0 \<and> objectCount = index then Some i
         else
           nthObjectBrace_loop index rest (Suc i) (braceCount + 1) bracketCount objectCount
             inString escapeNext)
      else if char = CHR ''}'' then
        (if braceCount - 1 = 0 \<and> bracketCount = 0 then
           nthObjectBrace_loop index rest (Suc i) (braceCount - 1) bracketCount
             (Suc objectCount) inString escapeNext
         else
           nthObjectBrace_loop index rest (Suc i) (braceCount - 1) bracketCount objectCount
             inString escapeNext)
      else
        nthObjectBrace_loop index rest (Suc i) braceCount bracketCount objectCount
          inString escapeNext)"

definition findNthObjectBracePosition :: "string \<Rightarrow> document \<Rightarrow> nat \<Rightarrow> range option" where
  "findNthObjectBracePosition text document index =
     (let pos = length (takeWhile is_space text)
      in if pos \<ge> length text \<or> text ! pos \<noteq> CHR ''['' then None
         else (case nthObjectBrace_loop index (drop (pos + 1) text) (pos + 1) 0 0 0 False False of
                 Some currentObjectStart \<Rightarrow> Some (brace_range document currentObjectStart)
               | None \<Rightarrow> None))"

text \<open>
  The second loop of \<open>findObjectTextAtPosition\<close> and the loop of
  \<open>findPropertyValueText\<close>: the offset of the brace that brings \<open>braceCount\<close>
  back to zero, skipping string literals.
\<close>

fun closing_brace_loop :: "string \<Rightarrow> nat \<Rightarrow> int \<Rightarrow> bool \<Rightarrow> bool \<Rightarrow> nat option" where
  "closing_brace_loop [] i braceCount inString escapeNext = None"
| "closing_brace_loop (char # rest) i braceCount inString escapeNext =
     (if escapeNext then closing_brace_loop rest (Suc i) braceCount inString False
      else if char = backslash \<and> inString then
        closing_brace_loop rest (Suc i) braceCount inString True
      else if char = dq then
        closing_brace_loop rest (Suc i) braceCount (\<not> inString) escapeNext
      else if inString then closing_brace_loop rest (Suc i) braceCount inString escapeNext
      else if char = CHR ''{'' then
        closing_brace_loop rest (Suc i) (braceCount + 1) inString escapeNext
      else if char = CHR ''}'' then
        (if braceCount - 1 = 0 then Some i
         else closing_brace_loop rest (Suc i) (braceCount - 1) inString escapeNext)
      else closing_brace_loop rest (Suc i) braceCount inString escapeNext)"

text \<open>\<open>findObjectTextAtPosition\<close>: the pair of \<open>text\<close> and \<open>startOffset\<close>.\<close>

definition findObjectTextAtPosition :: "string \<Rightarrow> nat \<Rightarrow> (string \<times> nat) option" where
  "findObjectTextAtPosition text startPos =
     (case regex_exec open_brace (drop startPos text) startPos of
        None \<Rightarrow> None
      | Some (objectStart, len) \<Rightarrow>
          (case closing_brace_loop (drop (objectStart + 1) text) (objectStart + 1) 1 False False of
             None \<Rightarrow> None
           | Some i \<Rightarrow> Some (substring text objectStart (i + 1), objectStart)))"

text \<open>\<open>findPropertyValueText\<close>: the balanced object that starts the value, if the
  value is an object.\<close>

definition findPropertyValueText :: "string \<Rightarrow> string option" where
  "findPropertyValueText text =
     (let i = length (takeWhile is_space text)
      in if i \<ge> length text then None
         else if text ! i = CHR ''{'' then
           (case closing_brace_loop (drop i text) i 0 False False of
              Some j \<Rightarrow> Some (substring text i (j + 1))
            | None \<Rightarrow> None)
         else None)"

text \<open>The loop of \<open>findPropertyInText\<close> over the segments that are left.\<close>

fun propertyInText_loop :: "document \<Rightarrow> string list \<Rightarrow> string \<Rightarrow> nat \<Rightarrow> range option" where
  "propertyInText_loop document [] currentText currentOffset = None"
| "propertyInText_loop document (segment # segments) currentText currentOffset =
     (case regex_exec (key_colon segment) currentText 0 of
        None \<Rightarrow> None
      | Some (index, len) \<Rightarrow>
          (let propertyOffset = currentOffset + index
           in if segments = [] then
                Some (new_Range (positionAt document (propertyOffset + 1))
                                (positionAt document (propertyOffset + 1 + length segment)))
              else
                (let valueStart = currentOffset + index + len
                 in case findPropertyValueText (substring currentText (index + len) (length currentText)) of
                      None \<Rightarrow> None
                    | Some valueText \<Rightarrow>
                        propertyInText_loop document segments valueText valueStart)))"

definition findPropertyInText :: "string \<Rightarrow> document \<Rightarrow> nat \<Rightarrow> string \<Rightarrow> range option" where
  "findPropertyInText text document baseOffset path =
     (let segments = filter (\<lambda>s. length s > 0 \<and> \<not> all_digits s) (split_on CHR ''/'' path)
      in if length segments = 0 then None
         else propertyInText_loop document segments text baseOffset)"

definition findPropertyAtPath :: "string \<Rightarrow> document \<Rightarrow> string \<Rightarrow> range option" where
  "findPropertyAtPath text document path =
     (let segments = split_on CHR ''/'' path
      in if length segments > 0 \<and> all_digits (hd segments) then
           (let arrayIndex = parseInt (hd segments)
            in if length segments > 1 then
                 (case findNthObjectBracePosition text document arrayIndex of
                    None \<Rightarrow> None
                  | Some objectBracePos \<Rightarrow>
                      (let objectStart = offsetAt document (range_start objectBracePos)
                       in case findObjectTextAtPosition text objectStart of
                            None \<Rightarrow> None
                          | Some (objectText, startOffset) \<Rightarrow>
                              (let remainingPath = join_with CHR ''/'' (tl segments)
                               in findPropertyInText objectText document startOffset remainingPath)))
               else findNthObjectInArray text document arrayIndex False)
         else findPropertyInText text document 0 path)"

definition findObjectAtPath :: "string \<Rightarrow> document \<Rightarrow> string \<Rightarrow> bool \<Rightarrow> range option" where
  "findObjectAtPath text document path highlightBrace =
     (if path = [] then
        (case regex_exec open_brace text 0 of
           Some (index, len) \<Rightarrow> Some (brace_range document index)
         | None \<Rightarrow> None)
      else
        (let segments = split_on CHR ''/'' path
         in if length segments = 1 \<and> all_digits (hd segments) then
              findNthObjectInArray text document (parseInt (hd segments)) highlightBrace
            else
              (let lastSegment = last segments
               in if all_digits lastSegment then
                    findNthObjectInArray text document (parseInt lastSegment) False
                  else
                    (case regex_exec (key_colon_brace lastSegment) text 0 of
                       Some (index, len) \<Rightarrow>
                         Some (new_Range (positionAt document (index + 1))
                                         (positionAt document (index + 1 + length lastSegment)))
                     | None \<Rightarrow> None))))"

text \<open>\<open>instancePath.replace(/^\//, '').replace(/\/$/, '')\<close>\<close>

definition strip_leading_slash :: "string \<Rightarrow> string" where
  "strip_leading_slash s = (case s of c # cs \<Rightarrow> if c = CHR ''/'' then cs else s | [] \<Rightarrow> [])"

definition strip_trailing_slash :: "string \<Rightarrow> string" where
  "strip_trailing_slash s = (if s \<noteq> [] \<and> last s = CHR ''/'' then butlast s else s)"

text \<open>
  \<open>escapeRegex\<close> calls \<open>replace\<close> on its argument, which raises a \<open>TypeError\<close> when
  a parameter cast to a string is not one.
\<close>

datatype js_error = TypeError

text \<open>
  \<open>findErrorPosition\<close>.  The four rules are tried in the order of the source; a
  rule that finds no range falls through to the next one.
\<close>

definition findErrorPosition ::
  "document \<Rightarrow> string \<Rightarrow> validation_error \<Rightarrow> js_error + range option" where
  "findErrorPosition document instPath error =
     (let text = getText document;
          path = strip_trailing_slash (strip_leading_slash instPath);
          general = (if path \<noteq> [] then findPropertyAtPath text document path else None);
          required =
            (if keyword error = ''required'' \<and> map_of (params error) ''missingProperty'' \<noteq> None then
               (if path = [] then
                  (case regex_exec open_brace text 0 of
                     Some (index, len) \<Rightarrow> Some (brace_range document index)
                   | None \<Rightarrow> general)
                else
                  (case findObjectAtPath text document path True of
                     Some position \<Rightarrow> Some position
                   | None \<Rightarrow> general))
             else general);
          additional =
            (if keyword error = ''additionalProperties''
                \<and> map_of (params error) ''additionalProperty'' \<noteq> None then
               (case map_of (params error) ''additionalProperty'' of
                  Some (JStr additionalProp) \<Rightarrow>
                    (case regex_exec (key_colon additionalProp) text 0 of
                       Some (index, len) \<Rightarrow>
                         Inr (Some (new_Range (positionAt document (index + 1))
                                      (positionAt document (index + 1 + length additionalProp))))
                     | None \<Rightarrow> Inr required)
                | _ \<Rightarrow> Inl TypeError)
             else Inr required)
      in if keyword error = ''schema'' then
           (if path = [] \<and> map_of (params error) ''schemaId'' \<noteq> None then
              (case map_of (params error) ''schemaId'' of
                 Some (JStr schemaId) \<Rightarrow>
                   (case findTypeFieldByValue text document schemaId of
                      Some position \<Rightarrow> Inr (Some position)
                    | None \<Rightarrow> additional)
               | _ \<Rightarrow> Inl TypeError)
            else if path \<noteq> [] then
              (case findObjectAtPath text document path False of
                 Some position \<Rightarrow> Inr (Some position)
               | None \<Rightarrow> additional)
            else additional)
         else additional)"

section \<open>Entities and the registry\<close>

text \<open>
  \<open>JsonFile\<close>, \<open>JsonObj\<close> and \<open>JsonSchema\<close> are classes of \<open>entities.ts\<close>.  The records
  hold the fields that \<open>registry.ts\<close> and the validation entry point read and
  write.
\<close>

record json_file =
  file_path :: string
  file_name :: string
  file_content :: json
  file_validation :: "validation_result option"

text \<open>The class of an entity, as \<open>instanceof JsonSchema\<close> and
  \<open>instanceof JsonObj\<close> tell it; \<open>OtherEntity\<close> is the case where neither test
  succeeds.\<close>

datatype entity_kind = JsonSchema | JsonObj | OtherEntity

record gts_ref =
  ref_id :: string
  sourcePath :: string

record entity =
  kind :: entity_kind
  entity_id :: string
  entity_file :: json_file
  listSequence :: "nat option"
  content :: json
  schemaId :: "string option"
  gtsRefs :: "gts_ref list"
  isGtsEntity :: bool
  validation :: "validation_result option"

text \<open>
  What the configuration reports about one content value: the entity's class,
  whether it is a GTS entity, its identifier, its declared schema identifier and
  its outbound references.  A configuration is the function that reports it;
  \<open>Inl\<close> is an exception raised while the entity is created, \<open>Inr None\<close> is no
  entity at all.
\<close>

record recognition =
  rec_kind :: entity_kind
  rec_isGts :: bool
  rec_id :: string
  rec_schemaId :: "string option"
  rec_refs :: "gts_ref list"

type_synonym gts_config = "json \<Rightarrow> string + recognition option"

text \<open>The errors of the schema-validation engine (\<open>ErrorObject\<close> of Ajv), before
  formatting.\<close>

record ajv_error =
  ajv_instancePath :: string
  ajv_schemaPath :: string
  ajv_keyword :: string
  ajv_message :: "string option"
  ajv_params :: "(string \<times> json) list"
  ajv_data :: "json option"

text \<open>A compiled validator: it raises (\<open>Inl\<close>) or returns its verdict and the
  value of \<open>validate.errors\<close>.\<close>

type_synonym validator = "json \<Rightarrow> string + (bool \<times> ajv_error list option)"

record app_api =
  api_type :: string
  disableValidation :: bool

text \<open>The answer of \<open>fetch\<close>; \<open>body_json\<close> is what \<open>res.json()\<close> settles to.\<close>

record response =
  ok :: bool
  status :: nat
  statusText :: string
  body_json :: "string + json"

text \<open>
  The collaborators outside the repository, taken as parameters: the two
  globals that mark a restricted host, the schema-validation engine (given the
  loader, it compiles a schema or raises), the identifier codec, JavaScript's
  conversions of a value to a string, the file's own validity check, and the
  network, whose answer may depend on the requests made so far.
\<close>

record host =
  acquireVsCodeApi :: bool
  gtsAppApi :: "app_api option"
  compileAsync :: "(string \<Rightarrow> string + json) \<Rightarrow> json \<Rightarrow> string + validator"
  decodeGtsId :: "string \<Rightarrow> string"
  toString :: "json option \<Rightarrow> string"
  JSON_stringify :: "json option \<Rightarrow> string"
  fileValidation :: "json \<Rightarrow> validation_result option"
  fetch :: "string list \<Rightarrow> string \<Rightarrow> string + response"

text \<open>A promise is modelled by what it settles to: \<open>Inl\<close> the message of the
  error it is rejected with, \<open>Inr\<close> the value it is fulfilled with.\<close>

type_synonym promise = "string + json"

text \<open>
  The registry.  Entities are objects shared between the global maps and the
  per-file lists and mutated by validation, so they live in a store (\<open>heap\<close>,
  addressed by index) and the maps hold addresses.  A \<open>Map\<close> is an association
  list in insertion order: \<open>set\<close> is \<open>AList.update\<close>, which overwrites in place or
  appends, \<open>delete\<close> is \<open>AList.delete\<close>, \<open>get\<close> is \<open>map_of\<close>.
\<close>

type_synonym addr = nat

record registry =
  heap :: "entity list"
  jsonObjs :: "(string \<times> addr) list"
  jsonSchemas :: "(string \<times> addr) list"
  jsonFiles :: "(string \<times> json_file) list"
  invalidFiles :: "(string \<times> json_file) list"
  jsonFileObjs :: "(string \<times> addr list) list"
  jsonFileSchemas :: "(string \<times> addr list) list"
  fetchCache :: "(string \<times> promise) list"
  defaultFilePath :: "string option"

text \<open>\<open>m.has(k)\<close>\<close>

definition has :: "'k \<Rightarrow> ('k \<times> 'v) list \<Rightarrow> bool" where
  "has k m = (map_of m k \<noteq> None)"

text \<open>\<open>new JsonRegistry()\<close>\<close>

definition newRegistry :: registry where
  "newRegistry =
     \<lparr>heap = [], jsonObjs = [], jsonSchemas = [], jsonFiles = [], invalidFiles = [],
      jsonFileObjs = [], jsonFileSchemas = [], fetchCache = [], defaultFilePath = None\<rparr>"

definition normalizeToArray :: "json \<Rightarrow> json list" where
  "normalizeToArray c = (case c of JArr xs \<Rightarrow> xs | _ \<Rightarrow> [c])"

definition isArray :: "json \<Rightarrow> bool" where
  "isArray c = (case c of JArr xs \<Rightarrow> True | _ \<Rightarrow> False)"

text \<open>The two \<open>for\<close> loops of \<open>invalidateFile\<close>: delete from a global map the
  identifier of every entity of the list.\<close>

fun delete_ids :: "entity list \<Rightarrow> addr list \<Rightarrow> (string \<times> addr) list \<Rightarrow> (string \<times> addr) list" where
  "delete_ids h [] m = m"
| "delete_ids h (a # as) m = delete_ids h as (AList.delete (entity_id (h ! a)) m)"

definition invalidateFile :: "string \<Rightarrow> registry \<Rightarrow> registry" where
  "invalidateFile path r =
     (let r1 = (if has path (jsonFiles r)
                then r\<lparr>jsonFiles := AList.delete path (jsonFiles r)\<rparr> else r);
          r2 = (if has path (invalidFiles r1)
                then r1\<lparr>invalidFiles := AList.delete path (invalidFiles r1)\<rparr> else r1);
          r3 = (case map_of (jsonFileObjs r2) path of
                  Some objs \<Rightarrow>
                    r2\<lparr>jsonObjs := delete_ids (heap r2) objs (jsonObjs r2),
                       jsonFileObjs := AList.update path [] (AList.delete path (jsonFileObjs r2))\<rparr>
                | None \<Rightarrow> r2);
          r4 = (case map_of (jsonFileSchemas r3) path of
                  Some schemas \<Rightarrow>
                    r3\<lparr>jsonSchemas := delete_ids (heap r3) schemas (jsonSchemas r3),
                       jsonFileSchemas :=
                         AList.update path [] (AList.delete path (jsonFileSchemas r3))\<rparr>
                | None \<Rightarrow> r3)
      in r4)"

text \<open>Modelled from the spec: the constructor of \<open>JsonFile\<close> (in \<open>entities.ts\<close>) keeps
  the path, the display name and the parsed content, and carries the file's
  own validity.\<close>

definition new_JsonFile :: "host \<Rightarrow> string \<Rightarrow> string \<Rightarrow> json \<Rightarrow> json_file" where
  "new_JsonFile h path name c =
     \<lparr>file_path = path, file_name = name, file_content = c,
      file_validation = fileValidation h c\<rparr>"

text \<open>Modelled from the spec: \<open>createEntity\<close> (in \<open>entities.ts\<close>) builds an entity that
  belongs to the given file, with the given position in the file's array and
  the given content, and with what the configuration extracts from the
  content; it is not validated yet.\<close>

definition createEntity ::
  "gts_config \<Rightarrow> json_file \<Rightarrow> nat option \<Rightarrow> json \<Rightarrow> string + entity option" where
  "createEntity cfg f seq c =
     (case cfg c of
        Inl exn \<Rightarrow> Inl exn
      | Inr None \<Rightarrow> Inr None
      | Inr (Some r) \<Rightarrow>
          Inr (Some \<lparr>kind = rec_kind r, entity_id = rec_id r, entity_file = f, listSequence = seq,
                     content = c, schemaId = rec_schemaId r, gtsRefs = rec_refs r,
                     isGtsEntity = rec_isGts r, validation = None\<rparr>))"

text \<open>\<open>[...(m.get(path) || []), a]\<close>\<close>

definition append_for :: "string \<Rightarrow> addr \<Rightarrow> (string \<times> addr list) list \<Rightarrow> (string \<times> addr list) list" where
  "append_for path a m =
     AList.update path ((case map_of m path of Some as \<Rightarrow> as | None \<Rightarrow> []) @ [a]) m"

text \<open>
  The \<open>forEach\<close> of \<open>processFileContent\<close> over the entities from index \<open>idx\<close> on.
  The result is the exception that ended the loop, if any, the registry and
  \<open>hasGtsEntities\<close>.  A stored entity is allocated at the end of the store.
\<close>

fun processEntities ::
  "gts_config \<Rightarrow> string \<Rightarrow> json_file \<Rightarrow> bool \<Rightarrow> json list \<Rightarrow> nat \<Rightarrow> registry \<Rightarrow> bool
     \<Rightarrow> string option \<times> registry \<times> bool" where
  "processEntities cfg path jsonFile arr [] idx r hasGtsEntities = (None, r, hasGtsEntities)"
| "processEntities cfg path jsonFile arr (entityContent # rest) idx r hasGtsEntities =
     (let seq = (if arr then Some idx else None)
      in case createEntity cfg jsonFile seq entityContent of
           Inl exn \<Rightarrow> (Some exn, r, hasGtsEntities)
         | Inr None \<Rightarrow> processEntities cfg path jsonFile arr rest (Suc idx) r hasGtsEntities
         | Inr (Some e) \<Rightarrow>
             (if isGtsEntity e then
                (let a = length (heap r);
                     r' = (if kind e = JsonSchema then
                             r\<lparr>heap := heap r @ [e],
                               jsonSchemas := AList.update (entity_id e) a (jsonSchemas r),
                               jsonFileSchemas := append_for path a (jsonFileSchemas r)\<rparr>
                           else
                             r\<lparr>heap := heap r @ [e],
                               jsonObjs := AList.update (entity_id e) a (jsonObjs r),
                               jsonFileObjs := append_for path a (jsonFileObjs r)\<rparr>)
                 in processEntities cfg path jsonFile arr rest (Suc idx) r' True)
              else processEntities cfg path jsonFile arr rest (Suc idx) r hasGtsEntities))"

text \<open>
  \<open>processFileContent\<close>, with the exception it may end with.  What it has
  written before the exception stays written.
\<close>

definition processFileContent ::
  "gts_config \<Rightarrow> host \<Rightarrow> string \<Rightarrow> string \<Rightarrow> json \<Rightarrow> registry \<Rightarrow> string option \<times> registry" where
  "processFileContent cfg h path name c r =
     (let r1 = invalidateFile path r;
          jsonFile = new_JsonFile h path name c
      in if (case file_validation jsonFile of Some v \<Rightarrow> \<not> valid v | None \<Rightarrow> False) then
           (None, r1\<lparr>invalidFiles := AList.update path jsonFile (invalidFiles r1)\<rparr>)
         else
           (case processEntities cfg path jsonFile (isArray c) (normalizeToArray c) 0 r1 False of
              (Some exn, r2, hasGtsEntities) \<Rightarrow> (Some exn, r2)
            | (None, r2, hasGtsEntities) \<Rightarrow>
                (if hasGtsEntities \<and> \<not> has path (jsonFiles r2) then
                   (None, r2\<lparr>jsonFiles := AList.update path jsonFile (jsonFiles r2)\<rparr>)
                 else (None, r2))))"

section \<open>Validation of entities\<close>

text \<open>\<open>s.startsWith(p)\<close>\<close>

definition startsWith :: "string \<Rightarrow> string \<Rightarrow> bool" where
  "startsWith s p = (literal p s \<noteq> None)"

text \<open>\<open>\[(\d+)\]\<close> at the start of a string: the digits and what follows the match.\<close>

definition bracket_index :: "string \<Rightarrow> (string \<times> string) option" where
  "bracket_index s =
     (case s of
        [] \<Rightarrow> None
      | c # cs \<Rightarrow>
          (if c = CHR ''['' \<and> takeWhile is_digit cs \<noteq> [] then
             (case dropWhile is_digit cs of
                [] \<Rightarrow> None
              | b # after \<Rightarrow> if b = CHR '']'' then Some (takeWhile is_digit cs, after) else None)
           else None))"

text \<open>\<open>s.replace(/\[(\d+)\]/g, '/$1')\<close>.  A match spans the bracket, the digits
  and the closing bracket; the scan goes on after it.\<close>

function replace_bracket_indices :: "string \<Rightarrow> string" where
  "replace_bracket_indices [] = []"
| "replace_bracket_indices (c # cs) =
     (case bracket_index (c # cs) of
        Some (ds, after) \<Rightarrow> CHR ''/'' # ds @ replace_bracket_indices after
      | None \<Rightarrow> c # replace_bracket_indices cs)"
  by pat_completeness auto
termination
proof (relation "measure length")
  show "wf (measure length)" by simp
next
  fix c :: char and cs :: string and x2 :: "string \<times> string" and ds after :: string
  assume "bracket_index (c # cs) = Some x2" and "(ds, after) = x2"
  then have "dropWhile is_digit cs = CHR '']'' # after"
    by (auto simp: bracket_index_def split: if_splits list.splits)
  then have "length after < length (dropWhile is_digit cs)" by simp
  also have "\<dots> \<le> length cs" by (rule length_dropWhile_le)
  finally show "(after, c # cs) \<in> measure length" by simp
next
  fix c :: char and cs :: string
  show "(cs, c # cs) \<in> measure length" by simp
qed

text \<open>\<open>s.replace(/\./g, '/')\<close>\<close>

definition replace_dots :: "string \<Rightarrow> string" where
  "replace_dots s = map (\<lambda>c. if c = CHR ''.'' then CHR ''/'' else c) s"

text \<open>The instance path of a missing reference, from its source path.\<close>

definition refInstancePath :: "string \<Rightarrow> string" where
  "refInstancePath sp =
     (if sp = ''root'' then ''/''
      else ''/'' @ replace_bracket_indices (replace_dots sp))"

definition refNotFound :: "gts_ref \<Rightarrow> validation_error" where
  "refNotFound ref =
     \<lparr>instancePath = refInstancePath (sourcePath ref),
      schemaPath = ''#'',
      keyword = [],
      message = ''GTS reference not found: '' @ ref_id ref,
      params = [(''gtsId'', JStr (ref_id ref)), (''sourcePath'', JStr (sourcePath ref))],
      data = None\<rparr>"

text \<open>\<open>this.jsonSchemas.has(ref.id) || this.jsonObjs.has(ref.id)\<close>\<close>

definition refExists :: "registry \<Rightarrow> string \<Rightarrow> bool" where
  "refExists r i = (has i (jsonSchemas r) \<or> has i (jsonObjs r))"

text \<open>The loop of \<open>validateEntity\<close> over \<open>entity.gtsRefs\<close>.\<close>

fun checkRefs :: "registry \<Rightarrow> gts_ref list \<Rightarrow> validation_result \<Rightarrow> validation_result" where
  "checkRefs r [] v = v"
| "checkRefs r (ref # refs) v =
     (if \<not> refExists r (ref_id ref) then
        checkRefs r refs (v\<lparr>valid := False, errors := errors v @ [refNotFound ref]\<rparr>)
      else checkRefs r refs v)"

text \<open>The test on \<open>globalThis\<close> that makes \<open>validateEntity\<close> return before any
  structural validation.\<close>

definition restrictedHost :: "host \<Rightarrow> bool" where
  "restrictedHost h =
     (acquireVsCodeApi h \<or>
      (case gtsAppApi h of
         Some api \<Rightarrow> api_type api = ''vscode'' \<or> disableValidation api
       | None \<Rightarrow> False))"

definition resolveSchema :: "registry \<Rightarrow> string \<Rightarrow> entity option" where
  "resolveSchema r sid = map_option (\<lambda>a. heap r ! a) (map_of (jsonSchemas r) sid)"

text \<open>The \<open>loadSchema\<close> callback given to the engine by \<open>createAjvInstance\<close>.\<close>

definition loadSchema :: "host \<Rightarrow> registry \<Rightarrow> string \<Rightarrow> string + json" where
  "loadSchema h r uri =
     (let sid = decodeGtsId h uri
      in if startsWith sid ''https://json-schema.org'' \<or> startsWith sid ''http://json-schema.org''
         then Inr (JBool True)
         else (case resolveSchema r sid of
                 None \<Rightarrow> Inl (''Schema not found for $ref: '' @ sid)
               | Some schema \<Rightarrow> Inr (content schema)))"

text \<open>\<open>createAjvInstance\<close>: the engine with the registry's loader.\<close>

definition createAjvInstance :: "host \<Rightarrow> registry \<Rightarrow> json \<Rightarrow> string + validator" where
  "createAjvInstance h r = compileAsync h (loadSchema h r)"

definition detailedMessage :: "host \<Rightarrow> ajv_error \<Rightarrow> string" where
  "detailedMessage h err =
     (let kw = ajv_keyword err; param = (\<lambda>k. toString h (map_of (ajv_params err) k))
      in if kw = ''type'' then ''must be '' @ param ''type''
         else if kw = ''required'' then
           ''missing required property '' @ [sq] @ param ''missingProperty'' @ [sq]
         else if kw = ''additionalProperties'' then
           ''must NOT have additional property '' @ [sq] @ param ''additionalProperty'' @ [sq]
         else if kw = ''pattern'' then ''must match pattern '' @ quoted (param ''pattern'')
         else if kw = ''enum'' then
           ''must be one of: '' @ JSON_stringify h (map_of (ajv_params err) ''allowedValues'')
         else if kw = ''minimum'' \<or> kw = ''maximum'' then
           ''must be '' @ param ''comparison'' @ '' '' @ param ''limit''
         else if kw = ''minLength'' \<or> kw = ''maxLength'' then
           (case ajv_message err of Some m \<Rightarrow> m | None \<Rightarrow> ''undefined'')
         else if kw = ''minItems'' \<or> kw = ''maxItems'' then
           ''must '' @ (if kw = ''minItems'' then ''NOT'' else []) @ '' have ''
             @ (if kw = ''minItems'' then ''fewer'' else ''more'') @ '' than ''
             @ param ''limit'' @ '' items''
         else if kw = ''anyOf'' \<or> kw = ''oneOf'' \<or> kw = ''allOf'' then
           ''must match '' @ kw @ '' schema''
         else if kw = ''format'' then ''must match format '' @ quoted (param ''format'')
         else (case ajv_message err of
                 Some m \<Rightarrow> if m = [] then ''Validation failed'' else m
               | None \<Rightarrow> ''Validation failed''))"

definition formatValidationErrors :: "host \<Rightarrow> ajv_error list \<Rightarrow> validation_error list" where
  "formatValidationErrors h ajvErrors =
     map (\<lambda>err.
            \<lparr>instancePath = (if ajv_instancePath err = [] then ''/'' else ajv_instancePath err),
             schemaPath = (if ajv_schemaPath err = [] then ''#'' else ajv_schemaPath err),
             keyword = ajv_keyword err,
             message = detailedMessage h err,
             params = ajv_params err,
             data = ajv_data err\<rparr>) ajvErrors"

definition syntheticError :: "string \<Rightarrow> string \<Rightarrow> (string \<times> json) list \<Rightarrow> validation_error" where
  "syntheticError kw msg ps =
     \<lparr>instancePath = [], schemaPath = ''#'', keyword = kw, message = msg, params = ps,
      data = None\<rparr>"

text \<open>
  \<open>validateEntity\<close>, as the entity with the validation result it is left with.
  \<open>v\<close> is the result after the reference check.  A schema identifier that is
  absent or the empty string makes \<open>!entity.schemaId\<close> true.
\<close>

definition validateEntity :: "host \<Rightarrow> registry \<Rightarrow> entity \<Rightarrow> entity" where
  "validateEntity h r entity =
     (let v = checkRefs r (gtsRefs entity) \<lparr>valid = True, errors = []\<rparr>
      in if restrictedHost h then entity\<lparr>validation := Some v\<rparr>
         else if kind entity = JsonSchema then
           (case createAjvInstance h r (content entity) of
              Inr validate \<Rightarrow> entity\<lparr>validation := Some (v\<lparr>valid := True\<rparr>)\<rparr>
            | Inl msg \<Rightarrow>
                entity\<lparr>validation := Some (v\<lparr>valid := False,
                  errors := errors v @
                    [syntheticError ''schema'' (''Invalid JSON Schema: '' @ msg)
                       [(''error'', JStr msg)]]\<rparr>)\<rparr>)
         else if kind entity = JsonObj then
           (case schemaId entity of
              None \<Rightarrow> entity\<lparr>validation := Some v\<rparr>
            | Some sid \<Rightarrow>
                (if sid = [] then entity\<lparr>validation := Some v\<rparr>
                 else
                   (case resolveSchema r sid of
                      None \<Rightarrow>
                        entity\<lparr>validation := Some (v\<lparr>valid := False,
                          errors := errors v @
                            [syntheticError ''schema'' (''Schema not found: '' @ sid)
                               [(''schemaId'', JStr sid)]]\<rparr>)\<rparr>
                    | Some schema \<Rightarrow>
                        (let thrown = (\<lambda>msg.
                               entity\<lparr>validation := Some (v\<lparr>valid := False,
                                 errors := errors v @
                                   [syntheticError ''validation'' (''Validation error: '' @ msg)
                                      [(''error'', JStr msg)]]\<rparr>)\<rparr>)
                         in case createAjvInstance h r (content schema) of
                              Inl msg \<Rightarrow> thrown msg
                            | Inr validate \<Rightarrow>
                                (case validate (content entity) of
                                   Inl msg \<Rightarrow> thrown msg
                                 | Inr (isValid, validateErrors) \<Rightarrow>
                                     (case validateErrors of
                                        Some ajvErrors \<Rightarrow>
                                          (if \<not> isValid then
                                             entity\<lparr>validation := Some (v\<lparr>valid := isValid,
                                               errors := formatValidationErrors h ajvErrors\<rparr>)\<rparr>
                                           else entity\<lparr>validation := Some (v\<lparr>valid := isValid\<rparr>)\<rparr>)
                                      | None \<Rightarrow>
                                          entity\<lparr>validation := Some (v\<lparr>valid := isValid\<rparr>)\<rparr>))))))
         else entity\<lparr>validation := Some v\<rparr>)"

text \<open>\<open>validateEntity\<close> on the object at an address of the store.\<close>

definition validateEntityAt :: "host \<Rightarrow> registry \<Rightarrow> addr \<Rightarrow> registry" where
  "validateEntityAt h r a = r\<lparr>heap := (heap r)[a := validateEntity h r (heap r ! a)]\<rparr>"

text \<open>\<open>validateEntities\<close>: the schemas in the order of their map, then the objects.\<close>

definition validateEntities :: "host \<Rightarrow> registry \<Rightarrow> registry" where
  "validateEntities h r =
     (let r1 = foldl (validateEntityAt h) r (map snd (jsonSchemas r))
      in foldl (validateEntityAt h) r1 (map snd (jsonObjs r1)))"

section \<open>Ingestion\<close>

record source_file =
  src_path :: string
  src_name :: string
  src_content :: json

definition is_separator :: "char \<Rightarrow> bool" where
  "is_separator c = (c = CHR ''/'' \<or> c = backslash)"

text \<open>\<open>/(^|[\\\/])\.gts-viewer[\\\/]/.test(path)\<close>\<close>

definition viewer_dir :: pattern where
  "viewer_dir s = Option.bind (literal ''.gts-viewer'' s) (one_of is_separator)"

definition inGtsViewer :: "string \<Rightarrow> bool" where
  "inGtsViewer path =
     (viewer_dir path \<noteq> None
      \<or> regex_exec (\<lambda>s. Option.bind (one_of is_separator s) viewer_dir) path 0 \<noteq> None)"

text \<open>The loop of \<open>ingestFiles\<close>: an exception of \<open>processFileContent\<close> is caught
  and logged, and the loop goes on with the registry as the exception left it.\<close>

fun ingest_loop :: "gts_config \<Rightarrow> host \<Rightarrow> source_file list \<Rightarrow> registry \<Rightarrow> registry" where
  "ingest_loop cfg h [] r = r"
| "ingest_loop cfg h (f # fs) r =
     (if inGtsViewer (src_path f) then ingest_loop cfg h fs r
      else ingest_loop cfg h fs
             (snd (processFileContent cfg h (src_path f) (src_name f) (src_content f) r)))"

definition ingestFiles :: "gts_config \<Rightarrow> host \<Rightarrow> source_file list \<Rightarrow> registry \<Rightarrow> registry" where
  "ingestFiles cfg h files r = validateEntities h (ingest_loop cfg h files r)"

section \<open>The fetch cache\<close>

text \<open>The decimal digits of a number, as a template literal prints it.\<close>

definition digit_char :: "nat \<Rightarrow> char" where
  "digit_char d = ''0123456789'' ! d"

fun show_nat :: "nat \<Rightarrow> string" where
  "show_nat n =
     (if n < 10 then [digit_char n]
      else show_nat (n div 10) @ [digit_char (n mod 10)])"

declare show_nat.simps [simp del]

text \<open>The key of the cache: the path with a leading slash.\<close>

definition cacheKey :: "string \<Rightarrow> string" where
  "cacheKey path = (if startsWith path ''/'' then path else ''/'' @ path)"

text \<open>
  The promise made by the inner \<open>async\<close> function of \<open>fetchJson\<close>, given the
  requests sent to the network so far.  It is rejected when \<open>fetch\<close> is, when
  the response is not \<open>ok\<close>, and when \<open>res.json()\<close> is.
\<close>

definition retrieval :: "host \<Rightarrow> string list \<Rightarrow> string \<Rightarrow> promise" where
  "retrieval h requests path =
     (case fetch h requests (cacheKey path) of
        Inl exn \<Rightarrow> Inl exn
      | Inr res \<Rightarrow>
          if \<not> ok res then
            Inl (''Failed to fetch '' @ path @ '': '' @ show_nat (status res)
                   @ '' '' @ statusText res)
          else body_json res)"

text \<open>\<open>fetchJson\<close>, on the registry and the list of the requests sent so far.\<close>

fun fetchJson ::
  "host \<Rightarrow> string \<Rightarrow> bool \<Rightarrow> registry \<times> string list \<Rightarrow> promise \<times> registry \<times> string list" where
  "fetchJson h path force (r, requests) =
     (let key = cacheKey path
      in case (if \<not> force then map_of (fetchCache r) key else None) of
           Some cached \<Rightarrow> (cached, r, requests)
         | None \<Rightarrow>
             (let p = retrieval h requests path
              in (p, r\<lparr>fetchCache := AList.update key p (fetchCache r)\<rparr>, requests @ [key])))"

text \<open>A sequence of calls of \<open>fetchJson\<close>, each a path and its \<open>force\<close> flag, whose
  results are dropped.\<close>

fun fetchJson_calls ::
  "host \<Rightarrow> (string \<times> bool) list \<Rightarrow> registry \<times> string list \<Rightarrow> registry \<times> string list" where
  "fetchJson_calls h [] s = s"
| "fetchJson_calls h ((path, force) # calls) s = fetchJson_calls h calls (snd (fetchJson h path force s))"

section \<open>Validation of an open document\<close>

text \<open>The callback of \<open>errors.map\<close> in \<open>validateOpenDocument\<close>, for an entity with
  \<open>listSequence = seq\<close>.\<close>

definition adjustError :: "nat \<Rightarrow> validation_error \<Rightarrow> validation_error" where
  "adjustError seq err =
     (let normalizedPath = strip_leading_slash (instancePath err);
          newPath = (if normalizedPath \<noteq> [] then ''/'' @ show_nat seq @ ''/'' @ normalizedPath
                     else ''/'' @ show_nat seq)
      in err\<lparr>instancePath := newPath\<rparr>)"

text \<open>The \<open>for\<close> loop over the entities of the file: what it pushes to \<open>errors\<close>.\<close>

fun surfaceErrors :: "entity list \<Rightarrow> validation_error list" where
  "surfaceErrors [] = []"
| "surfaceErrors (e # es) =
     (case validation e of
        Some v \<Rightarrow>
          (if length (errors v) > 0 then
             (case listSequence e of
                Some seq \<Rightarrow> map (adjustError seq) (errors v)
              | None \<Rightarrow> errors v)
           else [])
      | None \<Rightarrow> []) @ surfaceErrors es"

text \<open>\<open>Array.from(m.values())\<close> for a map of entities.\<close>

definition entity_values :: "registry \<Rightarrow> (string \<times> addr) list \<Rightarrow> entity list" where
  "entity_values r m = map (\<lambda>(k, a). heap r ! a) m"

text \<open>The errors of the document at \<open>filePath\<close>, read off the registry after
  ingestion.\<close>

definition documentErrors :: "registry \<Rightarrow> string \<Rightarrow> validation_error list" where
  "documentErrors r filePath =
     (let fromEntities =
            (let fileObjs = filter (\<lambda>obj. file_path (entity_file obj) = filePath)
                              (entity_values r (jsonObjs r));
                 fileSchemas = filter (\<lambda>s. file_path (entity_file s) = filePath)
                                 (entity_values r (jsonSchemas r))
             in surfaceErrors (fileObjs @ fileSchemas))
      in case map_of (invalidFiles r) filePath of
           Some invalid \<Rightarrow>
             (case file_validation invalid of
                Some v \<Rightarrow> if length (errors v) > 0 then errors v else fromEntities
              | None \<Rightarrow> fromEntities)
         | None \<Rightarrow> fromEntities)"

text \<open>
  \<open>validateOpenDocument\<close> up to the list of errors: the files of the last scan
  without the document, then the document with its parsed content, ingested
  into a new registry.
\<close>

definition validateOpenDocument ::
  "gts_config \<Rightarrow> host \<Rightarrow> source_file list \<Rightarrow> string \<Rightarrow> string \<Rightarrow> json \<Rightarrow> validation_error list" where
  "validateOpenDocument cfg h files filePath fileName c =
     (let withoutCurrent = filter (\<lambda>f. src_path f \<noteq> filePath) files;
          merged = withoutCurrent @ [\<lparr>src_path = filePath, src_name = fileName, src_content = c\<rparr>];
          r = ingestFiles cfg h merged newRegistry
      in documentErrors r filePath)"

record diagnostic =
  diag_range :: range
  diag_message :: string
  diag_code :: string

text \<open>\<open>validationErrorsToDiagnostics\<close>: each error is located in the document, or
  placed at the start of the document when the locator finds nothing.\<close>

fun validationErrorsToDiagnostics ::
  "validation_error list \<Rightarrow> document \<Rightarrow> js_error + diagnostic list" where
  "validationErrorsToDiagnostics [] document = Inr []"
| "validationErrorsToDiagnostics (error # rest) document =
     (case findErrorPosition document (instancePath error) error of
        Inl exn \<Rightarrow> Inl exn
      | Inr position \<Rightarrow>
          (let rng = (case position of
                        Some p \<Rightarrow> p
                      | None \<Rightarrow> new_Range \<lparr>line = 0, character = 0\<rparr> \<lparr>line = 0, character = 1\<rparr>);
               d = \<lparr>diag_range = rng, diag_message = message error, diag_code = keyword error\<rparr>
           in case validationErrorsToDiagnostics rest document of
                Inl exn \<Rightarrow> Inl exn
              | Inr ds \<Rightarrow> Inr (d # ds)))"

section \<open>Sequences of registry operations\<close>

text \<open>The two operations that change the files and entities of a registry, and
  a sequence of them applied in order.\<close>

datatype registry_op =
    IngestFiles gts_config "source_file list"
  | InvalidateFile string

fun apply_op :: "host \<Rightarrow> registry_op \<Rightarrow> registry \<Rightarrow> registry" where
  "apply_op h (IngestFiles cfg files) r = ingestFiles cfg h files r"
| "apply_op h (InvalidateFile path) r = invalidateFile path r"

fun run_ops :: "host \<Rightarrow> registry_op list \<Rightarrow> registry \<Rightarrow> registry" where
  "run_ops h [] r = r"
| "run_ops h (op # ops) r = run_ops h ops (apply_op h op r)"

text \<open>The path of the file that owns the entity at an address:
  \<open>entity.file.path\<close>.\<close>

definition owner :: "registry \<Rightarrow> addr \<Rightarrow> string" where
  "owner r a = file_path (entity_file (heap r ! a))"

section \<open>Invariants of the registry\<close>

text \<open>No path is a key of both \<open>jsonFiles\<close> and \<open>invalidFiles\<close>.\<close>

definition files_disjoint :: "registry \<Rightarrow> bool" where
  "files_disjoint r \<longleftrightarrow> fst ` set (jsonFiles r) \<inter> fst ` set (invalidFiles r) = {}"

text \<open>
  A global map and the per-file lists that go with it agree: every entry of
  the map is an allocated entity stored under its own identifier and listed
  for the file that owns it, and every entity listed for a file is allocated
  and owned by that file.
\<close>

definition indexed :: "registry \<Rightarrow> (string \<times> addr) list \<Rightarrow> (string \<times> addr list) list \<Rightarrow> bool" where
  "indexed r m perFile \<longleftrightarrow>
     (\<forall>(k, a) \<in> set m.
        a < length (heap r) \<and> entity_id (heap r ! a) = k
        \<and> (\<exists>as. map_of perFile (owner r a) = Some as \<and> a \<in> set as))
     \<and> (\<forall>(p, as) \<in> set perFile. \<forall>a \<in> set as. a < length (heap r) \<and> owner r a = p)"

definition consistent :: "registry \<Rightarrow> bool" where
  "consistent r \<longleftrightarrow>
     indexed r (jsonObjs r) (jsonFileObjs r) \<and> indexed r (jsonSchemas r) (jsonFileSchemas r)"

text \<open>Two registries with the same maps whose stores hold, at each address,
  entities with the same identifier and the same owning file.\<close>

definition same_entities :: "registry \<Rightarrow> registry \<Rightarrow> bool" where
  "same_entities r r' \<longleftrightarrow>
     jsonObjs r' = jsonObjs r \<and> jsonSchemas r' = jsonSchemas r
     \<and> jsonFileObjs r' = jsonFileObjs r \<and> jsonFileSchemas r' = jsonFileSchemas r
     \<and> jsonFiles r' = jsonFiles r \<and> invalidFiles r' = invalidFiles r
     \<and> length (heap r') = length (heap r)
     \<and> (\<forall>a. entity_id (heap r' ! a) = entity_id (heap r ! a)
            \<and> entity_file (heap r' ! a) = entity_file (heap r ! a))"

section \<open>Example inputs\<close>

text \<open>
  A host outside the editor whose network answers every request with
  \<open>404 Not Found\<close>.  Its engine behaves as Ajv 8 does on the schemas used
  below: it refuses to compile a schema that has the keyword \<open>id\<close>, which draft
  07 replaced by \<open>$id\<close>, and for a schema with a \<open>required\<close> list it reports one
  \<open>required\<close> error for each listed property that the instance lacks.  A file
  whose content is raw text did not parse.
\<close>

definition missing_required :: "json \<Rightarrow> json \<Rightarrow> string list" where
  "missing_required schema inst =
     (case (schema, inst) of
        (JObj sfields, JObj ifields) \<Rightarrow>
          (case map_of sfields ''required'' of
             Some (JArr names) \<Rightarrow>
               concat (map (\<lambda>n. case n of
                                  JStr nm \<Rightarrow> if has nm ifields then [] else [nm]
                                | _ \<Rightarrow> []) names)
           | _ \<Rightarrow> [])
      | _ \<Rightarrow> [])"

definition required_error :: "string \<Rightarrow> ajv_error" where
  "required_error nm =
     \<lparr>ajv_instancePath = [], ajv_schemaPath = ''#/required'', ajv_keyword = ''required'',
      ajv_message = Some (''must have required property '' @ nm),
      ajv_params = [(''missingProperty'', JStr nm)], ajv_data = None\<rparr>"

definition demo_engine :: "(string \<Rightarrow> string + json) \<Rightarrow> json \<Rightarrow> string + validator" where
  "demo_engine load schema =
     (if (case schema of JObj sfields \<Rightarrow> has ''id'' sfields | _ \<Rightarrow> False) then
        Inl (''NOT SUPPORTED: keyword '' @ quoted ''id'' @ '', use '' @ quoted ''$id''
               @ '' for schema ID'')
      else
        Inr (\<lambda>inst. let missing = missing_required schema inst
                    in Inr (missing = [],
                            if missing = [] then None else Some (map required_error missing))))"

definition demo_host :: host where
  "demo_host =
     \<lparr>acquireVsCodeApi = False, gtsAppApi = None, compileAsync = demo_engine,
      decodeGtsId = (\<lambda>s. s),
      toString = (\<lambda>v. case v of Some (JStr s) \<Rightarrow> s | _ \<Rightarrow> ''undefined''),
      JSON_stringify = (\<lambda>v. ''[]''),
      fileValidation = (\<lambda>c. case c of
                               JStr raw \<Rightarrow> Some \<lparr>valid = False, errors = []\<rparr>
                             | _ \<Rightarrow> None),
      fetch = (\<lambda>requests key.
                 Inr \<lparr>ok = False, status = 404, statusText = ''Not Found'', body_json = Inr JNull\<rparr>)\<rparr>"

text \<open>
  A configuration: an object with a string \<open>$id\<close> or, failing that, a string
  \<open>id\<close> is a GTS entity with that identifier, a schema when it has a
  \<open>$schema\<close> field; its \<open>type\<close> is its schema identifier; its one
  outbound reference, if any, is the value of its \<open>ref\<close> field, or else the value
  of \<open>$ref\<close>, which is a reference of the root.
\<close>

definition demo_config :: gts_config where
  "demo_config c =
     (case c of
        JObj flds \<Rightarrow>
          (case (case map_of flds ''$id'' of
                   Some (JStr i) \<Rightarrow> Some (JStr i)
                 | _ \<Rightarrow> map_of flds ''id'') of
             Some (JStr i) \<Rightarrow>
               Inr (Some \<lparr>rec_kind = (if has ''$schema'' flds then JsonSchema else JsonObj),
                          rec_isGts = True,
                          rec_id = i,
                          rec_schemaId = (case map_of flds ''type'' of
                                            Some (JStr t) \<Rightarrow> Some t
                                          | _ \<Rightarrow> None),
                          rec_refs = (case map_of flds ''ref'' of
                                        Some (JStr x) \<Rightarrow> [\<lparr>ref_id = x, sourcePath = ''ref''\<rparr>]
                                      | Some other \<Rightarrow> []
                                      | None \<Rightarrow>
                                          (case map_of flds ''$ref'' of
                                             Some (JStr x) \<Rightarrow>
                                               [\<lparr>ref_id = x, sourcePath = ''root''\<rparr>]
                                           | _ \<Rightarrow> []))\<rparr>)
           | _ \<Rightarrow> Inr None)
      | _ \<Rightarrow> Inr None)"

text \<open>A document of one line: offset \<open>n\<close> is character \<open>n\<close> of line 0.\<close>

definition one_line :: "string \<Rightarrow> document" where
  "one_line t =
     \<lparr>getText = t, positionAt = (\<lambda>n. \<lparr>line = 0, character = n\<rparr>), offsetAt = character\<rparr>"

text \<open>Two objects as \<open>createEntity\<close> makes them: one without a schema identifier,
  one that declares the schema \<open>gts.person\<close>.\<close>

definition plain_obj :: entity where
  "plain_obj =
     \<lparr>kind = JsonObj, entity_id = ''gts.o1'',
      entity_file = new_JsonFile demo_host ''a.json'' ''a.json'' (JObj [(''id'', JStr ''gts.o1'')]),
      listSequence = None, content = JObj [(''id'', JStr ''gts.o1'')],
      schemaId = None, gtsRefs = [], isGtsEntity = True, validation = None\<rparr>"

definition typed_obj :: entity where
  "typed_obj = plain_obj\<lparr>schemaId := Some ''gts.person''\<rparr>"

text \<open>
  Two files: a draft 07 schema with \<open>$id\<close> \<open>gts.person\<close> that requires \<open>name\<close>, and
  an object of that schema without a \<open>name\<close>, whose \<open>ref\<close> names an identifier
  that no file defines.
\<close>

definition person_schema :: json where
  "person_schema =
     JObj [(''$schema'', JStr ''http://json-schema.org/draft-07/schema#''),
           (''$id'', JStr ''gts.person''),
           (''required'', JArr [JStr ''name''])]"

definition alice :: json where
  "alice = JObj [(''id'', JStr ''gts.alice''), (''type'', JStr ''gts.person''),
                 (''ref'', JStr ''gts.missing'')]"

definition person_files :: "source_file list" where
  "person_files =
     [\<lparr>src_path = ''person.json'', src_name = ''person.json'', src_content = person_schema\<rparr>,
      \<lparr>src_path = ''alice.json'', src_name = ''alice.json'', src_content = alice\<rparr>]"

text \<open>Two files that each define an object with the identifier \<open>gts.x\<close>.\<close>

definition twin_files :: "source_file list" where
  "twin_files =
     [\<lparr>src_path = ''p.json'', src_name = ''p.json'',
       src_content = JObj [(''id'', JStr ''gts.x''), (''from'', JStr ''p'')]\<rparr>,
      \<lparr>src_path = ''q.json'', src_name = ''q.json'',
       src_content = JObj [(''id'', JStr ''gts.x''), (''from'', JStr ''q'')]\<rparr>]"

text \<open>
  The document \<open>[{"id":"gts.a"}]\<close> with an error against its first element, and
  the document \<open>{"ab": {}}\<close> with a \<open>required\<close> error against the object at \<open>/ab\<close>.
\<close>

definition array_text :: string where
  "array_text = ''[{'' @ quoted ''id'' @ '':'' @ quoted ''gts.a'' @ ''}]''"

definition element_error :: validation_error where
  "element_error =
     \<lparr>instancePath = ''/0'', schemaPath = ''#'', keyword = [],
      message = ''GTS reference not found: gts.missing'',
      params = [(''gtsId'', JStr ''gts.missing''), (''sourcePath'', JStr ''root'')],
      data = None\<rparr>"

definition nested_text :: string where
  "nested_text = ''{'' @ quoted ''ab'' @ '': {}}''"

definition nested_required_error :: validation_error where
  "nested_required_error =
     \<lparr>instancePath = ''/ab'', schemaPath = ''#/properties/ab/required'', keyword = ''required'',
      message = ''missing required property '' @ [sq] @ ''x'' @ [sq],
      params = [(''missingProperty'', JStr ''x'')], data = None\<rparr>"



text \<open>
  Two files whose content is an array of three objects.  In the first, the
  object at index 2 refers to a missing identifier through its \<open>ref\<close> field; in
  the second, through a reference of the root.
\<close>

definition trio :: json where
  "trio = JArr [JObj [(''id'', JStr ''gts.a'')],
                JObj [(''id'', JStr ''gts.b'')],
                JObj [(''id'', JStr ''gts.c''), (''ref'', JStr ''gts.missing'')]]"

definition root_trio :: json where
  "root_trio = JArr [JObj [(''id'', JStr ''gts.a'')],
                     JObj [(''id'', JStr ''gts.b'')],
                     JObj [(''id'', JStr ''gts.c''), (''$ref'', JStr ''gts.missing'')]]"

definition trio_file :: "json \<Rightarrow> source_file" where
  "trio_file c = \<lparr>src_path = ''trio.json'', src_name = ''trio.json'', src_content = c\<rparr>"

text \<open>A file that did not parse, and a sequence of operations: the object
  \<open>gts.alice\<close> and the broken file are ingested, then the file of the object is
  invalidated and ingested again.\<close>

definition broken_file :: source_file where
  "broken_file =
     \<lparr>src_path = ''broken.json'', src_name = ''broken.json'', src_content = JStr ''{ not json''\<rparr>"

definition alice_file :: source_file where
  "alice_file = \<lparr>src_path = ''alice.json'', src_name = ''alice.json'', src_content = alice\<rparr>"

definition mixed_ops :: "registry_op list" where
  "mixed_ops =
     [IngestFiles demo_config [alice_file, broken_file],
      InvalidateFile ''alice.json'',
      IngestFiles demo_config [alice_file]]"

section \<open>What the specification says of the locator, in its own words\<close>


section \<open>Properties of the fetch cache\<close>

lemma fetchJson_keeps_entry:
  assumes "map_of (fetchCache (fst s)) k = Some p" and "\<not> (force \<and> cacheKey path = k)"
  shows "map_of (fetchCache (fst (snd (fetchJson h path force s)))) k = Some p"
proof (cases s)
  case (Pair r reqs)
  with assms show ?thesis
    by (auto simp: Let_def update_conv' split: option.splits)
qed

lemma fetchJson_calls_keep_entry:
  assumes "map_of (fetchCache (fst s)) k = Some p"
      and "\<forall>c \<in> set calls. \<not> (snd c \<and> cacheKey (fst c) = k)"
  shows "map_of (fetchCache (fst (fetchJson_calls h calls s))) k = Some p"
  using assms
proof (induction calls arbitrary: s)
  case Nil
  then show ?case by simp
next
  case (Cons c calls)
  obtain path force where c: "c = (path, force)" by (cases c)
  from Cons.prems have "map_of (fetchCache (fst (snd (fetchJson h path force s)))) k = Some p"
    by (intro fetchJson_keeps_entry) (auto simp: c)
  with Cons show ?case by (simp add: c)
qed

lemma fetchJson_result_cached:
  "fetchJson h path force s = (p, s') \<Longrightarrow> map_of (fetchCache (fst s')) (cacheKey path) = Some p"
  by (cases s) (auto simp: Let_def update_conv' split: option.splits if_splits)

lemma fetchJson_cache_hit:
  "map_of (fetchCache (fst s)) (cacheKey path) = Some p \<Longrightarrow> fetchJson h path False s = (p, s)"
  by (cases s) (auto simp: Let_def)

text \<open>
  C10.  When a call of \<open>fetchJson\<close> ends with a rejected promise, the cache holds
  that promise under the normalized key.  After any further calls none of which
  is a forced call for the same key, a call without \<open>force\<close> for a path with the
  same key returns the same rejection and leaves the registry and the list of
  requests as they are, so nothing is retrieved; a call with \<open>force\<close> sends a new
  request and stores the new promise under the key.
\<close>

theorem fetchJson_caches_rejection:
  assumes first: "fetchJson h path force s = (Inl msg, s1)"
      and calls: "\<forall>c \<in> set calls. \<not> (snd c \<and> cacheKey (fst c) = cacheKey path)"
      and same: "cacheKey path' = cacheKey path"
  shows "map_of (fetchCache (fst s1)) (cacheKey path) = Some (Inl msg)
       \<and> fetchJson h path' False (fetchJson_calls h calls s1)
           = (Inl msg, fetchJson_calls h calls s1)
       \<and> fetchJson h path' True (fetchJson_calls h calls s1)
           = (let s2 = fetchJson_calls h calls s1; p = retrieval h (snd s2) path'
              in (p, (fst s2)\<lparr>fetchCache := AList.update (cacheKey path) p (fetchCache (fst s2))\<rparr>,
                  snd s2 @ [cacheKey path]))"
proof -
  have a: "map_of (fetchCache (fst s1)) (cacheKey path) = Some (Inl msg)"
    using first by (rule fetchJson_result_cached)
  have "map_of (fetchCache (fst (fetchJson_calls h calls s1))) (cacheKey path') = Some (Inl msg)"
    using a calls unfolding same by (rule fetchJson_calls_keep_entry)
  then have b: "fetchJson h path' False (fetchJson_calls h calls s1)
           = (Inl msg, fetchJson_calls h calls s1)"
    by (rule fetchJson_cache_hit)
  have c: "fetchJson h path' True (fetchJson_calls h calls s1)
           = (let s2 = fetchJson_calls h calls s1; p = retrieval h (snd s2) path'
              in (p, (fst s2)\<lparr>fetchCache := AList.update (cacheKey path) p (fetchCache (fst s2))\<rparr>,
                  snd s2 @ [cacheKey path]))"
    by (cases "fetchJson_calls h calls s1") (simp add: Let_def same)
  from a b c show ?thesis by blast
qed

theorem fetchJson_caches_rejection_witness:
  "fetchJson demo_host ''a.json'' False (newRegistry, [])
     = (Inl ''Failed to fetch a.json: 404 Not Found'',
        newRegistry\<lparr>fetchCache := [(''/a.json'', Inl ''Failed to fetch a.json: 404 Not Found'')]\<rparr>,
        [''/a.json''])
   \<and> fetchJson demo_host ''/a.json'' False
       (fetchJson_calls demo_host [(''b.json'', True), (''a.json'', False)]
          (newRegistry\<lparr>fetchCache := [(''/a.json'', Inl ''Failed to fetch a.json: 404 Not Found'')]\<rparr>,
           [''/a.json'']))
     = (Inl ''Failed to fetch a.json: 404 Not Found'',
        fetchJson_calls demo_host [(''b.json'', True), (''a.json'', False)]
          (newRegistry\<lparr>fetchCache := [(''/a.json'', Inl ''Failed to fetch a.json: 404 Not Found'')]\<rparr>,
           [''/a.json'']))"
proof -
  have first: "fetchJson demo_host ''a.json'' False (newRegistry, [])
     = (Inl ''Failed to fetch a.json: 404 Not Found'',
        newRegistry\<lparr>fetchCache := [(''/a.json'', Inl ''Failed to fetch a.json: 404 Not Found'')]\<rparr>,
        [''/a.json''])"
    by (simp add: newRegistry_def cacheKey_def startsWith_def retrieval_def demo_host_def
        show_nat.simps digit_char_def Let_def)
  have calls: "\<forall>c \<in> set [(''b.json'', True), (''a.json'', False)].
      \<not> (snd c \<and> cacheKey (fst c) = cacheKey ''a.json'')"
    by (simp add: cacheKey_def startsWith_def)
  have same: "cacheKey ''/a.json'' = cacheKey ''a.json''"
    by (simp add: cacheKey_def startsWith_def)
  from fetchJson_caches_rejection [OF first calls same] first show ?thesis
    by blast
qed

section \<open>Properties of entity validation\<close>

lemma checkRefs_eq:
  "checkRefs r refs v =
     (if filter (\<lambda>ref. \<not> refExists r (ref_id ref)) refs = [] then v
      else v\<lparr>valid := False,
             errors := errors v @ map refNotFound (filter (\<lambda>ref. \<not> refExists r (ref_id ref)) refs)\<rparr>)"
  by (induction refs arbitrary: v) auto

lemma checkRefs_errors:
  "errors (checkRefs r refs v) =
     errors v @ map refNotFound (filter (\<lambda>ref. \<not> refExists r (ref_id ref)) refs)"
  by (simp add: checkRefs_eq)

lemma checkRefs_resolved:
  "\<forall>ref \<in> set refs. refExists r (ref_id ref) \<Longrightarrow> checkRefs r refs v = v"
  by (simp add: checkRefs_eq filter_empty_conv)

lemma keyword_refNotFound: "keyword (refNotFound ref) = []"
  by (simp add: refNotFound_def)

text \<open>In a restricted host \<open>validateEntity\<close> leaves the result of the reference
  check: one error for each outbound reference that neither index holds, in
  the order of the references.\<close>

lemma validateEntity_restricted:
  assumes "restrictedHost h"
  shows "validation (validateEntity h r e)
           = Some (checkRefs r (gtsRefs e) \<lparr>valid = True, errors = []\<rparr>)"
    and "map_option errors (validation (validateEntity h r e))
           = Some (map refNotFound (filter (\<lambda>ref. \<not> refExists r (ref_id ref)) (gtsRefs e)))"
  using assms by (simp_all add: validateEntity_def Let_def checkRefs_errors)

text \<open>
  C7.  Outside a restricted host, for an object entity: when it declares no
  schema identifier (none, or the empty string) and every outbound reference
  is in one of the two indices, \<open>validateEntity\<close> leaves it valid with no
  errors.  When it declares an identifier that the schema index does not
  hold, \<open>validateEntity\<close> leaves it invalid; its errors are those of the
  reference check followed by one error with keyword \<open>schema\<close> whose
  \<open>params.schemaId\<close> is the identifier, the only error with that keyword; and the
  result does not depend on the validation engine.
\<close>

theorem validateEntity_obj_schema_lookup:
  assumes host: "\<not> restrictedHost h" and obj: "kind e = JsonObj"
  shows "((schemaId e = None \<or> schemaId e = Some [])
            \<and> (\<forall>ref \<in> set (gtsRefs e). refExists r (ref_id ref))
          \<longrightarrow> validation (validateEntity h r e) = Some \<lparr>valid = True, errors = []\<rparr>)
       \<and> (schemaId e = Some sid \<and> sid \<noteq> [] \<and> \<not> has sid (jsonSchemas r)
          \<longrightarrow> validation (validateEntity h r e)
                = Some \<lparr>valid = False,
                        errors = errors (checkRefs r (gtsRefs e) \<lparr>valid = True, errors = []\<rparr>)
                          @ [\<lparr>instancePath = [], schemaPath = ''#'', keyword = ''schema'',
                              message = ''Schema not found: '' @ sid,
                              params = [(''schemaId'', JStr sid)], data = None\<rparr>]\<rparr>
              \<and> length (filter (\<lambda>x. keyword x = ''schema'')
                   (errors (the (validation (validateEntity h r e))))) = 1
              \<and> (\<forall>engine. validateEntity (h\<lparr>compileAsync := engine\<rparr>) r e = validateEntity h r e))"
proof (intro conjI impI)
  assume a: "(schemaId e = None \<or> schemaId e = Some [])
    \<and> (\<forall>ref \<in> set (gtsRefs e). refExists r (ref_id ref))"
  then have "checkRefs r (gtsRefs e) \<lparr>valid = True, errors = []\<rparr> = \<lparr>valid = True, errors = []\<rparr>"
    by (simp add: checkRefs_resolved)
  with a host obj show "validation (validateEntity h r e) = Some \<lparr>valid = True, errors = []\<rparr>"
    by (auto simp: validateEntity_def Let_def)
next
  assume a: "schemaId e = Some sid \<and> sid \<noteq> [] \<and> \<not> has sid (jsonSchemas r)"
  then have none: "resolveSchema r sid = None"
    by (simp add: resolveSchema_def has_def)
  let ?err = "\<lparr>instancePath = [], schemaPath = ''#'', keyword = ''schema'',
                message = ''Schema not found: '' @ sid,
                params = [(''schemaId'', JStr sid)], data = None\<rparr>"
  let ?v = "checkRefs r (gtsRefs e) \<lparr>valid = True, errors = []\<rparr>"
  show val: "validation (validateEntity h r e) = Some \<lparr>valid = False, errors = errors ?v @ [?err]\<rparr>"
    using a host obj none by (simp add: validateEntity_def Let_def syntheticError_def)
  have "filter (\<lambda>x. keyword x = ''schema'') (errors ?v) = []"
    by (simp add: checkRefs_errors filter_empty_conv keyword_refNotFound)
  with val show "length (filter (\<lambda>x. keyword x = ''schema'')
      (errors (the (validation (validateEntity h r e))))) = 1"
    by simp
  show "\<forall>engine. validateEntity (h\<lparr>compileAsync := engine\<rparr>) r e = validateEntity h r e"
    using a host obj none by (simp add: validateEntity_def Let_def restrictedHost_def)
qed

theorem validateEntity_obj_schema_lookup_witness:
  "\<not> restrictedHost demo_host \<and> kind plain_obj = JsonObj \<and> kind typed_obj = JsonObj
   \<and> schemaId plain_obj = None \<and> schemaId typed_obj = Some ''gts.person''
   \<and> \<not> has ''gts.person'' (jsonSchemas newRegistry)
   \<and> validation (validateEntity demo_host newRegistry plain_obj)
       = Some \<lparr>valid = True, errors = []\<rparr>
   \<and> validation (validateEntity demo_host newRegistry typed_obj)
       = Some \<lparr>valid = False,
               errors = [\<lparr>instancePath = [], schemaPath = ''#'', keyword = ''schema'',
                          message = ''Schema not found: gts.person'',
                          params = [(''schemaId'', JStr ''gts.person'')], data = None\<rparr>]\<rparr>"
proof -
  have host: "\<not> restrictedHost demo_host"
    by (simp add: restrictedHost_def demo_host_def)
  have k1: "kind plain_obj = JsonObj" and k2: "kind typed_obj = JsonObj"
    by (simp_all add: plain_obj_def typed_obj_def)
  have s1: "schemaId plain_obj = None" and r1: "gtsRefs plain_obj = []"
    and s2: "schemaId typed_obj = Some ''gts.person''" and r2: "gtsRefs typed_obj = []"
    by (simp_all add: plain_obj_def typed_obj_def)
  have absent: "\<not> has ''gts.person'' (jsonSchemas newRegistry)"
    by (simp add: has_def newRegistry_def)
  from validateEntity_obj_schema_lookup [OF host k1, where r = newRegistry]
       validateEntity_obj_schema_lookup [OF host k2, where r = newRegistry and sid = "''gts.person''"]
       host k1 k2 s1 s2 r1 r2 absent
  show ?thesis by simp
qed

text \<open>
  Outside a restricted host, for an object whose schema is in the schema
  index: whenever the engine compiles the schema and the compiled validator
  rejects the content with a list of errors, the errors left on the entity
  are the formatted errors of the validator alone, whatever the reference
  check had found.
\<close>

lemma validateEntity_structural_failure:
  assumes "\<not> restrictedHost h" and "kind e = JsonObj"
      and "schemaId e = Some sid" and "sid \<noteq> []"
      and "resolveSchema r sid = Some schema"
      and "createAjvInstance h r (content schema) = Inr validate"
      and "validate (content e) = Inr (False, Some ajvErrors)"
  shows "validation (validateEntity h r e)
           = Some \<lparr>valid = False, errors = formatValidationErrors h ajvErrors\<rparr>"
  using assms by (simp add: validateEntity_def Let_def)

text \<open>
  C2.  The files \<open>person.json\<close> and \<open>alice.json\<close>: the schema has no keyword that
  the engine refuses, the object \<open>gts.alice\<close> refers to \<open>gts.missing\<close>, which
  neither index holds, and lacks the \<open>name\<close> that its schema requires.  After
  ingestion its only error is the \<open>required\<close> error: the assignment of the
  formatted structural errors to \<open>entity.validation.errors\<close> has dropped the
  error of the reference check.
\<close>

theorem structural_errors_replace_reference_error:
  "\<not> refExists (ingestFiles demo_config demo_host person_files newRegistry) ''gts.missing''
   \<and> map_of (jsonObjs (ingestFiles demo_config demo_host person_files newRegistry)) ''gts.alice''
       = Some 1
   \<and> validation (heap (ingestFiles demo_config demo_host person_files newRegistry) ! 0)
       = Some \<lparr>valid = True, errors = []\<rparr>
   \<and> gtsRefs (heap (ingestFiles demo_config demo_host person_files newRegistry) ! 1)
       = [\<lparr>ref_id = ''gts.missing'', sourcePath = ''ref''\<rparr>]
   \<and> validation (heap (ingestFiles demo_config demo_host person_files newRegistry) ! 1)
       = Some \<lparr>valid = False,
               errors = [\<lparr>instancePath = ''/'', schemaPath = ''#/required'',
                          keyword = ''required'',
                          message = ''missing required property '' @ [sq] @ ''name'' @ [sq],
                          params = [(''missingProperty'', JStr ''name'')], data = None\<rparr>]\<rparr>"
  by code_simp

section \<open>Properties of the locator\<close>










text \<open>For every text and index, \<open>findNthObjectInArray\<close> returns the same range
  with and without \<open>highlightBrace\<close>: the text it searches for the \<open>id\<close> and \<open>type\<close>
  fields is the opening brace alone.\<close>

lemma brace_has_no_field: "regex_exec (field_with_string f) ''{'' 0 = None"
  by (simp add: field_with_string_def quoted_def dq_def)

lemma nthObjectInArray_loop_ignores_flag:
  "rest = drop i text \<Longrightarrow>
   nthObjectInArray_loop text document index False rest i bc kc oc ins esc
     = nthObjectInArray_loop text document index True rest i bc kc oc ins esc"
proof (induction rest arbitrary: i bc kc oc ins esc)
  case Nil
  then show ?case by simp
next
  case (Cons c rest)
  from Cons.prems have lt: "i < length text" 
    by (metis drop_all list.distinct(1) not_le)
  from Cons.prems have c: "text ! i = c" and rest: "rest = drop (Suc i) text"
    by (metis Cons_nth_drop_Suc list.inject lt)+
  note IH = Cons.IH [OF rest]
  have obj: "substring text i (Suc i) = [c]"
    using lt c by (simp add: substring_def Let_def min_def max_def take_Suc_conv_app_nth)
  have none: "regex_exec (field_with_string f) (substring text i (Suc i)) 0 = None"
    if "c = CHR ''{''" for f
    using that by (simp only: obj brace_has_no_field)
  show ?case
    by (simp add: IH Let_def none)
qed

lemma findNthObjectInArray_ignores_flag:
  "findNthObjectInArray text document index False = findNthObjectInArray text document index True"
  by (simp add: findNthObjectInArray_def Let_def nthObjectInArray_loop_ignores_flag)

text \<open>The root case of a \<open>required\<close> error: the range of the first opening brace
  of the text, when there is one.\<close>

lemma required_at_root:
  assumes "keyword err = ''required''" and "map_of (params err) ''missingProperty'' \<noteq> None"
      and "strip_trailing_slash (strip_leading_slash ipath) = []"
      and "regex_exec open_brace (getText doc) 0 = Some (k, len)"
  shows "findErrorPosition doc ipath err = Inr (Some (brace_range doc k))"
  using assms by (simp add: findErrorPosition_def Let_def)

text \<open>
  C1.  The document \<open>[{"id":"gts.a"}]\<close> and an error with instance path \<open>/0\<close>: the
  first element has an \<open>id\<close> field, whose key is at offsets 3 and 4 between the
  quotes at 2 and 5, and the locator returns the range of the opening brace
  at offset 1.  The text in which \<open>findNthObjectInArray\<close> looks for the \<open>id\<close>
  and \<open>type\<close> fields is \<open>text.substring(currentObjectStart, i + 1)\<close> with
  \<open>i = currentObjectStart\<close>, the brace alone.
\<close>

theorem findNthObjectInArray_misses_id:
  "findErrorPosition (one_line array_text) (instancePath element_error) element_error
     = Inr (Some \<lparr>range_start = \<lparr>line = 0, character = 1\<rparr>,
                  range_end = \<lparr>line = 0, character = 2\<rparr>\<rparr>)
   \<and> substring array_text 1 2 = ''{''
   \<and> substring array_text 2 6 = quoted ''id''"
  by code_simp

text \<open>
  C5.  The document \<open>{"ab": {}}\<close> and a \<open>required\<close> error with instance path \<open>/ab\<close>:
  the addressed object opens at offset 7, and the locator returns the range
  of the two characters of the key \<open>ab\<close>, offsets 2 to 4.  \<open>findObjectAtPath\<close>
  uses \<open>highlightBrace\<close> only when the path is a single index.
\<close>

theorem required_at_property_path_returns_key:
  "findErrorPosition (one_line nested_text) (instancePath nested_required_error)
       nested_required_error
     = Inr (Some \<lparr>range_start = \<lparr>line = 0, character = 2\<rparr>,
                  range_end = \<lparr>line = 0, character = 4\<rparr>\<rparr>)
   \<and> substring nested_text 2 4 = ''ab''
   \<and> substring nested_text 7 8 = ''{''"
  by code_simp

section \<open>Properties of the registry\<close>

text \<open>
  C9.  The files \<open>p.json\<close> and \<open>q.json\<close> each define an object \<open>gts.x\<close>.  After
  ingestion the object index maps \<open>gts.x\<close> to the entity of \<open>q.json\<close>, while the
  list kept for \<open>p.json\<close> still names an entity with that identifier;
  \<open>invalidateFile\<close> of \<open>p.json\<close> then deletes by identifier and empties the
  object index.
\<close>

theorem invalidateFile_deletes_entity_of_other_file:
  "map_of (jsonObjs (ingestFiles demo_config demo_host twin_files newRegistry)) ''gts.x'' = Some 1
   \<and> file_path (entity_file (heap (ingestFiles demo_config demo_host twin_files newRegistry) ! 1))
       = ''q.json''
   \<and> jsonObjs (invalidateFile ''p.json'' (ingestFiles demo_config demo_host twin_files newRegistry))
       = []"
  by code_simp

lemma has_keys: "has k m \<longleftrightarrow> k \<in> fst ` set m"
  by (simp add: has_def map_of_eq_None_iff)

lemma delete_if_has: "(if has k m then AList.delete k m else m) = AList.delete k m"
  by (simp add: has_keys)

lemma keys_delete: "fst ` set (AList.delete k m) = fst ` set m - {k}"
  by (auto simp: AList.delete_eq)

lemma invalidateFile_jsonFiles: "jsonFiles (invalidateFile p r) = AList.delete p (jsonFiles r)"
  by (simp add: invalidateFile_def Let_def has_keys split: option.splits)

lemma invalidateFile_invalidFiles:
  "invalidFiles (invalidateFile p r) = AList.delete p (invalidFiles r)"
  by (simp add: invalidateFile_def Let_def has_keys split: option.splits)

lemma processEntities_files:
  "processEntities cfg path jf arr cs idx r g = (x, r', g')
     \<Longrightarrow> jsonFiles r' = jsonFiles r \<and> invalidFiles r' = invalidFiles r"
proof (induction cs arbitrary: idx r g)
  case Nil
  then show ?case by simp
next
  case (Cons c cs)
  then show ?case
    by (auto simp: Let_def split: sum.splits option.splits if_splits)
qed

lemma invalidateFile_disjoint: "files_disjoint r \<Longrightarrow> files_disjoint (invalidateFile p r)"
  by (auto simp: files_disjoint_def invalidateFile_jsonFiles invalidateFile_invalidFiles keys_delete)

lemma processFileContent_disjoint:
  assumes "files_disjoint r"
  shows "files_disjoint (snd (processFileContent cfg h p n c r))"
proof -
  let ?r1 = "invalidateFile p r"
  have d1: "files_disjoint ?r1" using assms by (rule invalidateFile_disjoint)
  have n1: "p \<notin> fst ` set (jsonFiles ?r1)" "p \<notin> fst ` set (invalidFiles ?r1)"
    by (simp_all add: invalidateFile_jsonFiles invalidateFile_invalidFiles keys_delete)
  obtain x r2 g where pe:
    "processEntities cfg p (new_JsonFile h p n c) (isArray c) (normalizeToArray c) 0 ?r1 False
       = (x, r2, g)"
    by (cases "processEntities cfg p (new_JsonFile h p n c) (isArray c) (normalizeToArray c) 0 ?r1 False")
  from processEntities_files [OF pe]
  have same: "jsonFiles r2 = jsonFiles ?r1" "invalidFiles r2 = invalidFiles ?r1" by simp_all
  show ?thesis
    using d1 n1 same pe
    by (auto simp: processFileContent_def Let_def files_disjoint_def dom_update
        split: option.splits if_splits)
qed

lemma validateEntityAt_maps:
  "jsonFiles (validateEntityAt h r a) = jsonFiles r"
  "invalidFiles (validateEntityAt h r a) = invalidFiles r"
  "jsonObjs (validateEntityAt h r a) = jsonObjs r"
  "jsonSchemas (validateEntityAt h r a) = jsonSchemas r"
  "jsonFileObjs (validateEntityAt h r a) = jsonFileObjs r"
  "jsonFileSchemas (validateEntityAt h r a) = jsonFileSchemas r"
  by (simp_all add: validateEntityAt_def)

lemma foldl_validate_maps:
  "jsonFiles (foldl (validateEntityAt h) r as) = jsonFiles r
   \<and> invalidFiles (foldl (validateEntityAt h) r as) = invalidFiles r
   \<and> jsonObjs (foldl (validateEntityAt h) r as) = jsonObjs r
   \<and> jsonSchemas (foldl (validateEntityAt h) r as) = jsonSchemas r
   \<and> jsonFileObjs (foldl (validateEntityAt h) r as) = jsonFileObjs r
   \<and> jsonFileSchemas (foldl (validateEntityAt h) r as) = jsonFileSchemas r"
  by (induction as arbitrary: r) (simp_all add: validateEntityAt_maps)

lemma validateEntities_maps:
  "jsonFiles (validateEntities h r) = jsonFiles r"
  "invalidFiles (validateEntities h r) = invalidFiles r"
  "jsonObjs (validateEntities h r) = jsonObjs r"
  "jsonSchemas (validateEntities h r) = jsonSchemas r"
  "jsonFileObjs (validateEntities h r) = jsonFileObjs r"
  "jsonFileSchemas (validateEntities h r) = jsonFileSchemas r"
  by (simp_all add: validateEntities_def Let_def foldl_validate_maps)

lemma ingest_loop_disjoint: "files_disjoint r \<Longrightarrow> files_disjoint (ingest_loop cfg h fs r)"
  by (induction fs arbitrary: r) (simp_all add: processFileContent_disjoint)

lemma apply_op_disjoint: "files_disjoint r \<Longrightarrow> files_disjoint (apply_op h op r)"
  by (cases op)
     (simp_all add: invalidateFile_disjoint ingestFiles_def,
      simp add: files_disjoint_def validateEntities_maps ingest_loop_disjoint [unfolded files_disjoint_def])

lemma run_ops_disjoint: "files_disjoint r \<Longrightarrow> files_disjoint (run_ops h ops r)"
  by (induction ops arbitrary: r) (simp_all add: apply_op_disjoint)

text \<open>
  C8.  After any sequence of \<open>ingestFiles\<close> and \<open>invalidateFile\<close> operations on a
  new registry, no path is a key of both \<open>jsonFiles\<close> and \<open>invalidFiles\<close>.
\<close>

theorem jsonFiles_invalidFiles_disjoint:
  "\<not> (has path (jsonFiles (run_ops h ops newRegistry))
       \<and> has path (invalidFiles (run_ops h ops newRegistry)))"
proof -
  have "files_disjoint newRegistry" by (simp add: files_disjoint_def newRegistry_def)
  then have "files_disjoint (run_ops h ops newRegistry)" by (rule run_ops_disjoint)
  then show ?thesis by (auto simp: files_disjoint_def has_keys)
qed

theorem jsonFiles_invalidFiles_disjoint_witness:
  "has ''broken.json'' (invalidFiles (run_ops demo_host mixed_ops newRegistry))
   \<and> \<not> has ''broken.json'' (jsonFiles (run_ops demo_host mixed_ops newRegistry))
   \<and> has ''alice.json'' (jsonFiles (run_ops demo_host mixed_ops newRegistry))
   \<and> \<not> has ''alice.json'' (invalidFiles (run_ops demo_host mixed_ops newRegistry))"
proof -
  have a: "has ''broken.json'' (invalidFiles (run_ops demo_host mixed_ops newRegistry))"
    by code_simp
  have b: "has ''alice.json'' (jsonFiles (run_ops demo_host mixed_ops newRegistry))"
    by code_simp
  from a b jsonFiles_invalidFiles_disjoint [of "''broken.json''" demo_host mixed_ops] jsonFiles_invalidFiles_disjoint [of "''alice.json''" demo_host mixed_ops]
  show ?thesis by blast
qed

lemma set_delete_ids:
  "set (delete_ids h as m) = {(k, v) \<in> set m. k \<notin> (\<lambda>a. entity_id (h ! a)) ` set as}"
  by (induction as arbitrary: m) (auto simp: AList.delete_eq)

lemma set_update_subset: "set (AList.update k v m) \<subseteq> insert (k, v) (set m)"
  by (induction m) auto

lemma update_fresh: "k \<notin> fst ` set m \<Longrightarrow> AList.update k v m = m @ [(k, v)]"
  by (induction m) auto

lemma set_marker:
  "set (AList.update p [] (AList.delete p m)) = insert (p, []) {(k, v) \<in> set m. k \<noteq> p}"
proof -
  have "p \<notin> fst ` set (AList.delete p m)" by (rule delete_notin_dom)
  then have "AList.update p [] (AList.delete p m) = AList.delete p m @ [(p, [])]"
    by (rule update_fresh)
  then show ?thesis by (auto simp: AList.delete_eq)
qed

lemma map_of_marker:
  "map_of (AList.update p [] (AList.delete p m)) q = (if q = p then Some [] else map_of m q)"
  by (simp add: update_conv' delete_conv')

text \<open>One global map and its per-file lists under invalidateFile.\<close>

lemma indexed_invalidate:
  assumes ix: "indexed r m pf" and h: "heap r' = heap r"
      and m': "m' = (case map_of pf p of Some as \<Rightarrow> delete_ids (heap r) as m | None \<Rightarrow> m)"
      and pf': "pf' = (case map_of pf p of Some as \<Rightarrow> AList.update p [] (AList.delete p pf) | None \<Rightarrow> pf)"
  shows "indexed r' m' pf' \<and> (\<forall>(k, a) \<in> set m'. owner r' a \<noteq> p)
         \<and> (\<forall>(q, as) \<in> set pf'. \<forall>a \<in> set as. owner r' a \<noteq> p)"
proof -
  have ow: "owner r' a = owner r a" for a by (simp add: owner_def h)
  have sub: "set m' \<subseteq> set m" using m' by (auto simp: set_delete_ids split: option.splits)
  have gone: "owner r a \<noteq> p" if "(k, a) \<in> set m'" for k a
  proof
    assume eq: "owner r a = p"
    from that sub have in_m: "(k, a) \<in> set m" by blast
    with ix obtain as where as: "map_of pf (owner r a) = Some as" "a \<in> set as"
      and idk: "entity_id (heap r ! a) = k"
      by (auto simp: indexed_def)
    from as eq have "map_of pf p = Some as" by simp
    with m' have "m' = delete_ids (heap r) as m" by simp
    with that have "k \<notin> (\<lambda>a. entity_id (heap r ! a)) ` set as" by (simp add: set_delete_ids)
    with as(2) idk show False by blast
  qed
  have pf_other: "map_of pf' q = map_of pf q" if "q \<noteq> p" for q
    using pf' that by (simp add: map_of_marker split: option.splits)
  have pf_set: "(q, as) \<in> set pf' \<Longrightarrow> (q, as) = (p, []) \<or> ((q, as) \<in> set pf \<and> q \<noteq> p)" for q as
  proof (cases "map_of pf p")
    case None
    assume "(q, as) \<in> set pf'"
    with None pf' have in_pf: "(q, as) \<in> set pf" by simp
    from None have "p \<notin> fst ` set pf" by (simp add: map_of_eq_None_iff)
    with in_pf have "q \<noteq> p" by force
    with in_pf show ?thesis by simp
  next
    case (Some bs)
    assume "(q, as) \<in> set pf'"
    with Some pf' show ?thesis by (auto simp: set_marker)
  qed
  have 1: "\<forall>(k, a) \<in> set m'.
        a < length (heap r') \<and> entity_id (heap r' ! a) = k
        \<and> (\<exists>as. map_of pf' (owner r' a) = Some as \<and> a \<in> set as)"
  proof (clarify)
    fix k a assume ka: "(k, a) \<in> set m'"
    with sub have "(k, a) \<in> set m" by blast
    with ix obtain as where "a < length (heap r)" "entity_id (heap r ! a) = k"
      "map_of pf (owner r a) = Some as" "a \<in> set as"
      by (auto simp: indexed_def)
    moreover from ka have "owner r a \<noteq> p" by (rule gone)
    ultimately show "a < length (heap r') \<and> entity_id (heap r' ! a) = k
        \<and> (\<exists>as. map_of pf' (owner r' a) = Some as \<and> a \<in> set as)"
      by (auto simp: h ow pf_other)
  qed
  have 2: "\<forall>(q, as) \<in> set pf'. \<forall>a \<in> set as. a < length (heap r') \<and> owner r' a = q"
  proof (clarify)
    fix q as a assume "(q, as) \<in> set pf'" "a \<in> set as"
    with pf_set [of q as] have "(q, as) \<in> set pf" by auto
    with ix \<open>a \<in> set as\<close> have "a < length (heap r) \<and> owner r a = q"
      by (auto simp: indexed_def)
    then show "a < length (heap r') \<and> owner r' a = q" by (simp add: h ow)
  qed
  have 3: "owner r' a \<noteq> p" if in_pf': "(q, as) \<in> set pf'" and a: "a \<in> set as" for q as a
  proof
    assume eq: "owner r' a = p"
    from pf_set [OF in_pf'] a have "(q, as) \<in> set pf" "q \<noteq> p" by auto
    with ix a have "owner r a = q" by (auto simp: indexed_def)
    with eq \<open>q \<noteq> p\<close> show False by (simp add: ow)
  qed
  have "indexed r' m' pf'" using 1 2 by (simp add: indexed_def)
  moreover have "\<forall>(k, a) \<in> set m'. owner r' a \<noteq> p" using gone by (auto simp: ow)
  moreover have "\<forall>(q, as) \<in> set pf'. \<forall>a \<in> set as. owner r' a \<noteq> p" using 3 by auto
  ultimately show ?thesis by blast
qed


lemma invalidateFile_fields:
  "heap (invalidateFile p r) = heap r"
  "jsonObjs (invalidateFile p r) =
     (case map_of (jsonFileObjs r) p of
        Some as \<Rightarrow> delete_ids (heap r) as (jsonObjs r) | None \<Rightarrow> jsonObjs r)"
  "jsonFileObjs (invalidateFile p r) =
     (case map_of (jsonFileObjs r) p of
        Some as \<Rightarrow> AList.update p [] (AList.delete p (jsonFileObjs r)) | None \<Rightarrow> jsonFileObjs r)"
  "jsonSchemas (invalidateFile p r) =
     (case map_of (jsonFileSchemas r) p of
        Some as \<Rightarrow> delete_ids (heap r) as (jsonSchemas r) | None \<Rightarrow> jsonSchemas r)"
  "jsonFileSchemas (invalidateFile p r) =
     (case map_of (jsonFileSchemas r) p of
        Some as \<Rightarrow> AList.update p [] (AList.delete p (jsonFileSchemas r))
      | None \<Rightarrow> jsonFileSchemas r)"
  by (simp_all add: invalidateFile_def Let_def split: option.splits)

lemma invalidateFile_consistent:
  assumes "consistent r"
  shows "consistent (invalidateFile p r)"
  using assms
    indexed_invalidate [OF _ invalidateFile_fields(1) invalidateFile_fields(2) invalidateFile_fields(3),
      of r p]
    indexed_invalidate [OF _ invalidateFile_fields(1) invalidateFile_fields(4) invalidateFile_fields(5),
      of r p]
  by (simp add: consistent_def)

lemma invalidateFile_purges_consistent:
  assumes "consistent r"
  shows "(\<forall>(k, a) \<in> set (jsonObjs (invalidateFile p r)). owner (invalidateFile p r) a \<noteq> p)
       \<and> (\<forall>(k, a) \<in> set (jsonSchemas (invalidateFile p r)). owner (invalidateFile p r) a \<noteq> p)
       \<and> (\<forall>(q, as) \<in> set (jsonFileObjs (invalidateFile p r)).
             \<forall>a \<in> set as. owner (invalidateFile p r) a \<noteq> p)
       \<and> (\<forall>(q, as) \<in> set (jsonFileSchemas (invalidateFile p r)).
             \<forall>a \<in> set as. owner (invalidateFile p r) a \<noteq> p)"
  using assms
    indexed_invalidate [OF _ invalidateFile_fields(1) invalidateFile_fields(2) invalidateFile_fields(3),
      of r p]
    indexed_invalidate [OF _ invalidateFile_fields(1) invalidateFile_fields(4) invalidateFile_fields(5),
      of r p]
  by (simp add: consistent_def)

lemma indexed_extend:
  assumes ix: "indexed r m pf" and h: "heap r' = heap r @ [e]"
  shows "indexed r' m pf"
proof -
  have old: "heap r' ! a = heap r ! a" if "a < length (heap r)" for a
    using that by (simp add: h nth_append)
  then have ow: "owner r' a = owner r a" if "a < length (heap r)" for a
    using that by (simp add: owner_def)
  have len: "a < length (heap r) \<Longrightarrow> a < length (heap r')" for a by (simp add: h)
  show ?thesis
    unfolding indexed_def
  proof (intro conjI ballI)
    fix x assume x: "x \<in> set m"
    obtain k a where ka: "x = (k, a)" by (cases x)
    with x ix obtain as where "a < length (heap r)" "entity_id (heap r ! a) = k"
      "map_of pf (owner r a) = Some as" "a \<in> set as"
      by (auto simp: indexed_def)
    then show "case x of (k, a) \<Rightarrow> a < length (heap r') \<and> entity_id (heap r' ! a) = k
        \<and> (\<exists>as. map_of pf (owner r' a) = Some as \<and> a \<in> set as)"
      by (auto simp: ka old ow len)
  next
    fix x assume x: "x \<in> set pf"
    obtain q as where qa: "x = (q, as)" by (cases x)
    with x ix have "\<forall>a \<in> set as. a < length (heap r) \<and> owner r a = q"
      by (auto simp: indexed_def)
    then show "case x of (q, as) \<Rightarrow> \<forall>a \<in> set as. a < length (heap r') \<and> owner r' a = q"
      by (auto simp: qa ow len)
  qed
qed

lemma indexed_add:
  assumes ix: "indexed r m pf" and h: "heap r' = heap r @ [e]"
      and p: "file_path (entity_file e) = p"
  shows "indexed r' (AList.update (entity_id e) (length (heap r)) m) (append_for p (length (heap r)) pf)"
proof -
  let ?a = "length (heap r)"
  let ?old = "case map_of pf p of Some as \<Rightarrow> as | None \<Rightarrow> []"
  have ix': "indexed r' m pf" using ix h by (rule indexed_extend)
  have new: "heap r' ! ?a = e" by (simp add: h)
  have own: "owner r' ?a = p" by (simp add: owner_def new p)
  have lookup: "map_of (append_for p ?a pf) q = (if q = p then Some (?old @ [?a]) else map_of pf q)"
    for q by (simp add: append_for_def update_conv')
  have old_sub: "map_of pf q = Some as \<Longrightarrow> \<exists>bs. map_of (append_for p ?a pf) q = Some bs \<and> set as \<subseteq> set bs"
    for q as by (auto simp: lookup)
  show ?thesis
    unfolding indexed_def
  proof (intro conjI ballI)
    fix x assume x: "x \<in> set (AList.update (entity_id e) ?a m)"
    obtain k a where ka: "x = (k, a)" by (cases x)
    from x set_update_subset have "x = (entity_id e, ?a) \<or> x \<in> set m" by fastforce
    then show "case x of (k, a) \<Rightarrow> a < length (heap r') \<and> entity_id (heap r' ! a) = k
        \<and> (\<exists>as. map_of (append_for p ?a pf) (owner r' a) = Some as \<and> a \<in> set as)"
    proof
      assume "x = (entity_id e, ?a)"
      then show ?thesis by (simp add: h own lookup)
    next
      assume "x \<in> set m"
      with ix' ka obtain as where f: "a < length (heap r')" "entity_id (heap r' ! a) = k"
        "map_of pf (owner r' a) = Some as" "a \<in> set as"
        by (auto simp: indexed_def)
      from old_sub [OF f(3)] f(4) have "\<exists>bs. map_of (append_for p ?a pf) (owner r' a) = Some bs \<and> a \<in> set bs"
        by blast
      with f show ?thesis by (simp add: ka)
    qed
  next
    fix x assume x: "x \<in> set (append_for p ?a pf)"
    obtain q as where qa: "x = (q, as)" by (cases x)
    from x set_update_subset have "x = (p, ?old @ [?a]) \<or> x \<in> set pf"
      unfolding append_for_def by fastforce
    then show "case x of (q, as) \<Rightarrow> \<forall>a \<in> set as. a < length (heap r') \<and> owner r' a = q"
    proof
      assume xe: "x = (p, ?old @ [?a])"
      have "\<forall>a \<in> set ?old. a < length (heap r') \<and> owner r' a = p"
      proof (cases "map_of pf p")
        case None
        then show ?thesis by simp
      next
        case (Some bs)
        then have "(p, bs) \<in> set pf" by (rule map_of_SomeD)
        with ix' have "\<forall>a \<in> set bs. a < length (heap r') \<and> owner r' a = p"
          by (auto simp: indexed_def)
        with Some show ?thesis by simp
      qed
      then show ?thesis by (auto simp: xe h own)
    next
      assume "x \<in> set pf"
      with ix' show ?thesis by (auto simp: indexed_def)
    qed
  qed
qed


lemma createEntity_fields:
  "createEntity cfg jf seq c = Inr (Some e)
     \<Longrightarrow> entity_file e = jf \<and> listSequence e = seq \<and> content e = c"
  by (auto simp: createEntity_def split: sum.splits option.splits)

lemma processEntities_consistent:
  assumes "consistent r" and "file_path jf = path"
      and "processEntities cfg path jf arr cs idx r g = (x, r', g')"
  shows "consistent r'"
  using assms
proof (induction cs arbitrary: idx r g)
  case Nil
  then show ?case by simp
next
  case (Cons c cs)
  let ?seq = "if arr then Some idx else None"
  show ?case
  proof (cases "createEntity cfg jf ?seq c")
    case (Inl exn)
    with Cons.prems show ?thesis by (simp add: Let_def)
  next
    case (Inr oe)
    show ?thesis
    proof (cases oe)
      case None
      with Inr Cons.prems have "processEntities cfg path jf arr cs (Suc idx) r g = (x, r', g')"
        by (simp add: Let_def)
      with Cons.IH Cons.prems(1,2) show ?thesis by blast
    next
      case (Some e)
      from Inr Some have ef: "file_path (entity_file e) = path"
        using createEntity_fields Cons.prems(2) by blast
      show ?thesis
      proof (cases "isGtsEntity e")
        case False
        with Inr Some Cons.prems have "processEntities cfg path jf arr cs (Suc idx) r g = (x, r', g')"
          by (simp add: Let_def)
        with Cons.IH Cons.prems(1,2) show ?thesis by blast
      next
        case True
        let ?a = "length (heap r)"
        let ?rs = "r\<lparr>heap := heap r @ [e],
                     jsonSchemas := AList.update (entity_id e) ?a (jsonSchemas r),
                     jsonFileSchemas := append_for path ?a (jsonFileSchemas r)\<rparr>"
        let ?ro = "r\<lparr>heap := heap r @ [e],
                     jsonObjs := AList.update (entity_id e) ?a (jsonObjs r),
                     jsonFileObjs := append_for path ?a (jsonFileObjs r)\<rparr>"
        let ?r1 = "if kind e = JsonSchema then ?rs else ?ro"
        from Cons.prems(1) have io: "indexed r (jsonObjs r) (jsonFileObjs r)"
          and isch: "indexed r (jsonSchemas r) (jsonFileSchemas r)"
          by (simp_all add: consistent_def)
        have "consistent ?rs"
          using indexed_add [OF isch _ ef, of ?rs] indexed_extend [OF io, of ?rs e]
          by (simp add: consistent_def)
        moreover have "consistent ?ro"
          using indexed_add [OF io _ ef, of ?ro] indexed_extend [OF isch, of ?ro e]
          by (simp add: consistent_def)
        ultimately have c1: "consistent ?r1" by simp
        from Inr Some True Cons.prems(3)
        have "processEntities cfg path jf arr cs (Suc idx) ?r1 True = (x, r', g')"
          by (simp add: Let_def)
        with Cons.IH [OF c1 Cons.prems(2)] show ?thesis by blast
      qed
    qed
  qed
qed

lemma processFileContent_consistent:
  assumes "consistent r"
  shows "consistent (snd (processFileContent cfg h p n c r))"
proof -
  let ?r1 = "invalidateFile p r"
  let ?jf = "new_JsonFile h p n c"
  have c1: "consistent ?r1" using assms by (rule invalidateFile_consistent)
  have fp: "file_path ?jf = p" by (simp add: new_JsonFile_def)
  obtain x r2 g where pe:
    "processEntities cfg p ?jf (isArray c) (normalizeToArray c) 0 ?r1 False = (x, r2, g)"
    by (cases "processEntities cfg p ?jf (isArray c) (normalizeToArray c) 0 ?r1 False")
  from processEntities_consistent [OF c1 fp pe] have c2: "consistent r2" .
  have upd: "consistent (r0\<lparr>jsonFiles := jfs\<rparr>) = consistent r0"
    "consistent (r0\<lparr>invalidFiles := ifs\<rparr>) = consistent r0" for r0 jfs ifs
    by (simp_all add: consistent_def indexed_def owner_def)
  show ?thesis
    using c1 c2 pe
    by (auto simp: processFileContent_def Let_def upd split: option.splits if_splits)
qed

lemma ingest_loop_consistent: "consistent r \<Longrightarrow> consistent (ingest_loop cfg h fs r)"
  by (induction fs arbitrary: r) (simp_all add: processFileContent_consistent)

lemma validateEntity_keeps:
  "entity_id (validateEntity h r e) = entity_id e
   \<and> entity_file (validateEntity h r e) = entity_file e
   \<and> listSequence (validateEntity h r e) = listSequence e"
  by (simp add: validateEntity_def Let_def split: sum.splits option.splits prod.splits)

lemma same_entities_refl: "same_entities r r"
  by (simp add: same_entities_def)

lemma same_entities_trans: "same_entities r r' \<Longrightarrow> same_entities r' r'' \<Longrightarrow> same_entities r r''"
  by (simp add: same_entities_def)

lemma validateEntityAt_same: "same_entities r (validateEntityAt h r a)"
proof (cases "a < length (heap r)")
  case True
  then show ?thesis
    by (simp add: same_entities_def validateEntityAt_def nth_list_update validateEntity_keeps)
next
  case False
  then have "(heap r)[a := validateEntity h r (heap r ! a)] = heap r"
    by (simp add: list_update_beyond)
  then show ?thesis
    by (simp add: same_entities_def validateEntityAt_def)
qed

lemma foldl_validate_same: "same_entities r (foldl (validateEntityAt h) r as)"
proof (induction as arbitrary: r)
  case Nil
  show ?case by (simp add: same_entities_refl)
next
  case (Cons a as)
  have "same_entities r (validateEntityAt h r a)" by (rule validateEntityAt_same)
  moreover have "same_entities (validateEntityAt h r a) (foldl (validateEntityAt h) (validateEntityAt h r a) as)"
    by (rule Cons.IH)
  ultimately show ?case by (simp add: same_entities_trans)
qed

lemma validateEntities_same: "same_entities r (validateEntities h r)"
  unfolding validateEntities_def Let_def
  by (rule same_entities_trans [OF foldl_validate_same foldl_validate_same])

lemma same_entities_consistent:
  assumes "same_entities r r'" and "consistent r"
  shows "consistent r'"
proof -
  from assms(1) have "owner r' a = owner r a" for a
    by (simp add: owner_def same_entities_def)
  with assms show ?thesis
    by (simp add: consistent_def indexed_def same_entities_def)
qed

lemma apply_op_consistent: "consistent r \<Longrightarrow> consistent (apply_op h op r)"
proof (cases op)
  case (IngestFiles cfg files)
  assume "consistent r"
  then have "consistent (ingest_loop cfg h files r)" by (rule ingest_loop_consistent)
  with validateEntities_same have "consistent (validateEntities h (ingest_loop cfg h files r))"
    by (rule same_entities_consistent)
  with IngestFiles show ?thesis by (simp add: ingestFiles_def)
next
  case (InvalidateFile path)
  assume "consistent r"
  with InvalidateFile show ?thesis by (simp add: invalidateFile_consistent)
qed

lemma run_ops_consistent: "consistent r \<Longrightarrow> consistent (run_ops h ops r)"
  by (induction ops arbitrary: r) (simp_all add: apply_op_consistent)

lemma newRegistry_consistent: "consistent newRegistry"
  by (simp add: consistent_def indexed_def newRegistry_def)

text \<open>
  C3, as stated, at a path that the registry has never seen: \<open>invalidateFile\<close>
  writes the empty list only under a key that the per-file index already has,
  so after \<open>invalidateFile\<close> of \<open>a.json\<close> on a new registry neither per-file index
  maps \<open>a.json\<close> to the empty list.
\<close>

theorem invalidateFile_leaves_no_marker_for_unknown_path:
  "map_of (jsonFileObjs (invalidateFile ''a.json'' newRegistry)) ''a.json'' \<noteq> Some []
   \<and> map_of (jsonFileSchemas (invalidateFile ''a.json'' newRegistry)) ''a.json'' \<noteq> Some []"
  by code_simp

text \<open>
  C3, amended.  Let the registry be the result of any sequence of \<open>ingestFiles\<close>
  and \<open>invalidateFile\<close> operations on a new registry.  After \<open>invalidateFile\<close> of
  \<open>P\<close>: no entity of the object index, of the schema index or of a per-file list
  is owned by \<open>P\<close>; \<open>P\<close> is a key of neither \<open>jsonFiles\<close> nor \<open>invalidFiles\<close>; and each
  per-file index maps \<open>P\<close> to the empty list when \<open>P\<close> was one of its keys, and has
  no entry for \<open>P\<close> otherwise.
\<close>

theorem invalidateFile_purges_file:
  "(\<forall>(k, a) \<in> set (jsonObjs (invalidateFile P (run_ops h ops newRegistry))).
       owner (invalidateFile P (run_ops h ops newRegistry)) a \<noteq> P)
   \<and> (\<forall>(k, a) \<in> set (jsonSchemas (invalidateFile P (run_ops h ops newRegistry))).
       owner (invalidateFile P (run_ops h ops newRegistry)) a \<noteq> P)
   \<and> (\<forall>(q, as) \<in> set (jsonFileObjs (invalidateFile P (run_ops h ops newRegistry))).
       \<forall>a \<in> set as. owner (invalidateFile P (run_ops h ops newRegistry)) a \<noteq> P)
   \<and> (\<forall>(q, as) \<in> set (jsonFileSchemas (invalidateFile P (run_ops h ops newRegistry))).
       \<forall>a \<in> set as. owner (invalidateFile P (run_ops h ops newRegistry)) a \<noteq> P)
   \<and> \<not> has P (jsonFiles (invalidateFile P (run_ops h ops newRegistry)))
   \<and> \<not> has P (invalidFiles (invalidateFile P (run_ops h ops newRegistry)))
   \<and> map_of (jsonFileObjs (invalidateFile P (run_ops h ops newRegistry))) P
       = (if has P (jsonFileObjs (run_ops h ops newRegistry)) then Some [] else None)
   \<and> map_of (jsonFileSchemas (invalidateFile P (run_ops h ops newRegistry))) P
       = (if has P (jsonFileSchemas (run_ops h ops newRegistry)) then Some [] else None)"
proof -
  let ?r = "run_ops h ops newRegistry"
  have c: "consistent ?r" using newRegistry_consistent by (rule run_ops_consistent)
  note purge = invalidateFile_purges_consistent [OF c, of P]
  have files: "\<not> has P (jsonFiles (invalidateFile P ?r))" "\<not> has P (invalidFiles (invalidateFile P ?r))"
    by (simp_all add: has_keys invalidateFile_jsonFiles invalidateFile_invalidFiles keys_delete)
  have markers: "map_of (jsonFileObjs (invalidateFile P ?r)) P
       = (if has P (jsonFileObjs ?r) then Some [] else None)"
    "map_of (jsonFileSchemas (invalidateFile P ?r)) P
       = (if has P (jsonFileSchemas ?r) then Some [] else None)"
    by (auto simp: invalidateFile_fields has_def map_of_marker split: option.splits)
  from purge files markers show ?thesis by blast
qed

theorem invalidateFile_purges_file_witness:
  "jsonObjs (run_ops demo_host mixed_ops newRegistry) = [(''gts.alice'', 1)]
   \<and> owner (run_ops demo_host mixed_ops newRegistry) 1 = ''alice.json''
   \<and> jsonObjs (invalidateFile ''alice.json'' (run_ops demo_host mixed_ops newRegistry)) = []
   \<and> \<not> has ''alice.json'' (jsonFiles (invalidateFile ''alice.json'' (run_ops demo_host mixed_ops newRegistry)))
   \<and> map_of (jsonFileObjs (invalidateFile ''alice.json'' (run_ops demo_host mixed_ops newRegistry)))
        ''alice.json'' = Some []
   \<and> map_of (jsonFileSchemas (invalidateFile ''alice.json'' (run_ops demo_host mixed_ops newRegistry)))
        ''alice.json'' = None"
proof -
  have a: "jsonObjs (run_ops demo_host mixed_ops newRegistry) = [(''gts.alice'', 1)]"
    by code_simp
  have b: "owner (run_ops demo_host mixed_ops newRegistry) 1 = ''alice.json''"
    by code_simp
  have c: "jsonObjs (invalidateFile ''alice.json'' (run_ops demo_host mixed_ops newRegistry)) = []"
    by code_simp
  have d: "has ''alice.json'' (jsonFileObjs (run_ops demo_host mixed_ops newRegistry))"
    by code_simp
  have e: "\<not> has ''alice.json'' (jsonFileSchemas (run_ops demo_host mixed_ops newRegistry))"
    by code_simp
  from invalidateFile_purges_file [of "''alice.json''" demo_host mixed_ops] a b c d e
  show ?thesis by simp
qed

section \<open>Properties of the validation of an open document\<close>

lemma surfaceErrors_member:
  assumes "e \<in> set es" and "listSequence e = Some n" and "validation e = Some v"
      and "err \<in> set (errors v)"
  shows "adjustError n err \<in> set (surfaceErrors es)"
  using assms
proof (induction es)
  case Nil
  then show ?case by simp
next
  case (Cons x xs)
  show ?case
  proof (cases "e = x")
    case True
    with Cons.prems have "errors v \<noteq> []" by auto
    with True Cons.prems show ?thesis by auto
  next
    case False
    with Cons have "adjustError n err \<in> set (surfaceErrors xs)" by simp
    then show ?thesis by simp
  qed
qed

lemma adjustError_path:
  "adjustError n err =
     err\<lparr>instancePath :=
           (if instancePath err = [] \<or> instancePath err = ''/'' then ''/'' @ show_nat n
            else if hd (instancePath err) = CHR ''/'' then ''/'' @ show_nat n @ instancePath err
            else ''/'' @ show_nat n @ ''/'' @ instancePath err)\<rparr>"
  by (cases "instancePath err") (auto simp: adjustError_def Let_def strip_leading_slash_def)

text \<open>The entities that \<open>processFileContent\<close> stores for a file are appended to
  the store; each has the file as its owner, one of the elements as its
  content and, when the content of the file is an array, the index of that
  element as its \<open>listSequence\<close>, and no \<open>listSequence\<close> otherwise.\<close>

lemma processEntities_listSequence:
  assumes "processEntities cfg path jf arr cs idx r g = (x, r', g')"
  shows "\<exists>new. heap r' = heap r @ new
           \<and> (\<forall>e \<in> set new. \<exists>i < length cs.
                  listSequence e = (if arr then Some (idx + i) else None)
                  \<and> content e = cs ! i \<and> entity_file e = jf)"
  using assms
proof (induction cs arbitrary: idx r g)
  case Nil
  then show ?case by simp
next
  case (Cons c cs)
  let ?seq = "if arr then Some idx else None"
  have shift: "\<exists>new. heap r' = heap r0 @ new
           \<and> (\<forall>e \<in> set new. \<exists>i < length (c # cs).
                  listSequence e = (if arr then Some (idx + i) else None)
                  \<and> content e = (c # cs) ! i \<and> entity_file e = jf)"
    if rest: "processEntities cfg path jf arr cs (Suc idx) r0 g0 = (x, r', g')" for r0 g0
  proof -
    from Cons.IH [OF rest] obtain new where h: "heap r' = heap r0 @ new"
      and p: "\<forall>e \<in> set new. \<exists>i < length cs.
                  listSequence e = (if arr then Some (Suc idx + i) else None)
                  \<and> content e = cs ! i \<and> entity_file e = jf"
      by blast
    have "\<exists>i < length (c # cs). listSequence e = (if arr then Some (idx + i) else None)
                  \<and> content e = (c # cs) ! i \<and> entity_file e = jf" if "e \<in> set new" for e
    proof -
      from p that obtain i where "i < length cs"
        "listSequence e = (if arr then Some (Suc idx + i) else None)"
        "content e = cs ! i" "entity_file e = jf" by blast
      then show ?thesis by (intro exI [of _ "Suc i"]) simp
    qed
    with h show ?thesis by blast
  qed
  show ?case
  proof (cases "createEntity cfg jf ?seq c")
    case (Inl exn)
    with Cons.prems show ?thesis by (simp add: Let_def)
  next
    case (Inr oe)
    show ?thesis
    proof (cases oe)
      case None
      with Inr Cons.prems have "processEntities cfg path jf arr cs (Suc idx) r g = (x, r', g')"
        by (simp add: Let_def)
      then show ?thesis by (rule shift)
    next
      case (Some e)
      from Inr Some have ef: "entity_file e = jf" "listSequence e = ?seq" "content e = c"
        by (auto simp: createEntity_def split: sum.splits option.splits)
      show ?thesis
      proof (cases "isGtsEntity e")
        case False
        with Inr Some Cons.prems have "processEntities cfg path jf arr cs (Suc idx) r g = (x, r', g')"
          by (simp add: Let_def)
        then show ?thesis by (rule shift)
      next
        case True
        let ?a = "length (heap r)"
        let ?r1 = "if kind e = JsonSchema
                   then r\<lparr>heap := heap r @ [e],
                          jsonSchemas := AList.update (entity_id e) ?a (jsonSchemas r),
                          jsonFileSchemas := append_for path ?a (jsonFileSchemas r)\<rparr>
                   else r\<lparr>heap := heap r @ [e],
                          jsonObjs := AList.update (entity_id e) ?a (jsonObjs r),
                          jsonFileObjs := append_for path ?a (jsonFileObjs r)\<rparr>"
        from Inr Some True Cons.prems
        have "processEntities cfg path jf arr cs (Suc idx) ?r1 True = (x, r', g')"
          by (simp add: Let_def)
        from shift [OF this] obtain new where h: "heap r' = heap ?r1 @ new"
          and p: "\<forall>e \<in> set new. \<exists>i < length (c # cs).
                  listSequence e = (if arr then Some (idx + i) else None)
                  \<and> content e = (c # cs) ! i \<and> entity_file e = jf"
          by blast
        have h1: "heap ?r1 = heap r @ [e]" by simp
        have "\<exists>i < length (c # cs). listSequence e = (if arr then Some (idx + i) else None)
                  \<and> content e = (c # cs) ! i \<and> entity_file e = jf"
          using ef by (intro exI [of _ 0]) simp
        with p have "\<forall>e' \<in> set (e # new). \<exists>i < length (c # cs).
                  listSequence e' = (if arr then Some (idx + i) else None)
                  \<and> content e' = (c # cs) ! i \<and> entity_file e' = jf"
          by simp
        moreover from h h1 have "heap r' = heap r @ (e # new)" by simp
        ultimately show ?thesis by blast
      qed
    qed
  qed
qed

text \<open>
  C4, as stated, at an error whose path is \<open>/\<close>: the file holds three objects
  and the object at index 2 has a missing reference of the root, reported
  with instance path \<open>/\<close>.  It is surfaced with \<open>/2\<close>, not with \<open>/2/\<close>.
\<close>

theorem root_path_surfaced_without_slash:
  "listSequence (heap (ingestFiles demo_config demo_host [trio_file root_trio] newRegistry) ! 2)
     = Some 2
   \<and> map_option (\<lambda>v. map instancePath (errors v))
        (validation (heap (ingestFiles demo_config demo_host [trio_file root_trio] newRegistry) ! 2))
       = Some [''/'']
   \<and> map instancePath
        (validateOpenDocument demo_config demo_host [] ''trio.json'' ''trio.json'' root_trio)
       = [''/2'']
   \<and> ''/2'' \<noteq> ''/'' @ show_nat 2 @ ''/''"
  by code_simp

text \<open>
  C4, amended.  Let an entity of the object or schema index be owned by the
  file at \<open>filePath\<close>, which is not an invalid file, and have \<open>listSequence = n\<close>.
  Each of its validation errors is among the errors surfaced for the file,
  with its instance path replaced: by \<open>/n\<close> when the path is empty or is \<open>/\<close>; by
  \<open>/n\<close> followed by the path when the path starts with a slash and is longer;
  by \<open>/n/\<close> followed by the path otherwise.  For \<open>n = 2\<close> each of these starts with
  \<open>/2\<close>.
\<close>

theorem surfaced_error_path:
  assumes indexed: "(k, a) \<in> set (jsonObjs r) \<or> (k, a) \<in> set (jsonSchemas r)"
      and owned: "owner r a = filePath"
      and valid_file: "\<not> has filePath (invalidFiles r)"
      and seq: "listSequence (heap r ! a) = Some n"
      and val: "validation (heap r ! a) = Some v"
      and err: "err \<in> set (errors v)"
  shows "err\<lparr>instancePath :=
           (if instancePath err = [] \<or> instancePath err = ''/'' then ''/'' @ show_nat n
            else if hd (instancePath err) = CHR ''/'' then ''/'' @ show_nat n @ instancePath err
            else ''/'' @ show_nat n @ ''/'' @ instancePath err)\<rparr>
         \<in> set (documentErrors r filePath)"
proof -
  let ?objs = "filter (\<lambda>obj. file_path (entity_file obj) = filePath) (entity_values r (jsonObjs r))"
  let ?schemas = "filter (\<lambda>s. file_path (entity_file s) = filePath) (entity_values r (jsonSchemas r))"
  from indexed owned have "heap r ! a \<in> set (?objs @ ?schemas)"
    by (force simp: entity_values_def owner_def)
  then have "adjustError n err \<in> set (surfaceErrors (?objs @ ?schemas))"
    using seq val err by (rule surfaceErrors_member)
  moreover from valid_file have "documentErrors r filePath = surfaceErrors (?objs @ ?schemas)"
    by (simp add: documentErrors_def has_def Let_def)
  ultimately show ?thesis by (simp add: adjustError_path)
qed

theorem surfaced_error_path_witness:
  "(''gts.c'', 2) \<in> set (jsonObjs (ingestFiles demo_config demo_host [trio_file trio] newRegistry))
   \<and> listSequence (heap (ingestFiles demo_config demo_host [trio_file trio] newRegistry) ! 2) = Some 2
   \<and> validation (heap (ingestFiles demo_config demo_host [trio_file trio] newRegistry) ! 2)
       = Some \<lparr>valid = False, errors = [refNotFound \<lparr>ref_id = ''gts.missing'', sourcePath = ''ref''\<rparr>]\<rparr>
   \<and> instancePath (refNotFound \<lparr>ref_id = ''gts.missing'', sourcePath = ''ref''\<rparr>) = ''/ref''
   \<and> (refNotFound \<lparr>ref_id = ''gts.missing'', sourcePath = ''ref''\<rparr>)\<lparr>instancePath := ''/2/ref''\<rparr>
       \<in> set (documentErrors (ingestFiles demo_config demo_host [trio_file trio] newRegistry)
                ''trio.json'')"
proof -
  let ?r = "ingestFiles demo_config demo_host [trio_file trio] newRegistry"
  let ?e = "refNotFound \<lparr>ref_id = ''gts.missing'', sourcePath = ''ref''\<rparr>"
  have ix: "(''gts.c'', 2) \<in> set (jsonObjs ?r)" by code_simp
  have ow: "owner ?r 2 = ''trio.json''" by code_simp
  have vf: "\<not> has ''trio.json'' (invalidFiles ?r)" by code_simp
  have sq: "listSequence (heap ?r ! 2) = Some 2" by code_simp
  have vl: "validation (heap ?r ! 2) = Some \<lparr>valid = False, errors = [?e]\<rparr>" by code_simp
  have er: "?e \<in> set (errors \<lparr>valid = False, errors = [?e]\<rparr>)" by simp
  have ip: "instancePath ?e = ''/ref''" by code_simp
  have two: "show_nat 2 = ''2''" by code_simp
  from surfaced_error_path [OF disjI1 [OF ix] ow vf sq vl er] ix sq vl ip two
  show ?thesis by simp
qed

end
